theory Spec2Isabelle
  imports Complex_Main
begin

section \<open>Container collision simulation (kollision.cpp)\<close>

text \<open>
  The embedding follows \<^verbatim>\<open>runCollisionSimulation\<close> of \<^verbatim>\<open>kollision.cpp\<close> (the class
  \<^verbatim>\<open>CollisionSimulation\<close> of the combined file has the same body). The C++ \<^verbatim>\<open>float\<close>
  is first read as a real number, every arithmetic step exact; the pair loop is then
  given once more with every operation rounded, for the statements that depend on the
  computed values. Mutation of the ball vector and of the drag flags is explicit state
  passing. A read of \<^verbatim>\<open>balls[k]\<close> outside the vector and a division by zero are written
  out as the value \<open>None\<close>.
\<close>

subsection \<open>Vectors (sf::Vector2f)\<close>

record Vector2f =
  vec_x :: real
  vec_y :: real

definition vec :: "real \<Rightarrow> real \<Rightarrow> Vector2f" where
  "vec a b = \<lparr>vec_x = a, vec_y = b\<rparr>"

definition vadd :: "Vector2f \<Rightarrow> Vector2f \<Rightarrow> Vector2f" where
  "vadd a b = vec (vec_x a + vec_x b) (vec_y a + vec_y b)"

definition vsub :: "Vector2f \<Rightarrow> Vector2f \<Rightarrow> Vector2f" where
  "vsub a b = vec (vec_x a - vec_x b) (vec_y a - vec_y b)"

definition vneg :: "Vector2f \<Rightarrow> Vector2f" where
  "vneg a = vec (- vec_x a) (- vec_y a)"

text \<open>\<^verbatim>\<open>v * s\<close>, vector on the left.\<close>

definition vmul :: "Vector2f \<Rightarrow> real \<Rightarrow> Vector2f" where
  "vmul a s = vec (vec_x a * s) (vec_y a * s)"

text \<open>\<^verbatim>\<open>s * v\<close>, scalar on the left.\<close>

definition smul :: "real \<Rightarrow> Vector2f \<Rightarrow> Vector2f" where
  "smul s a = vec (s * vec_x a) (s * vec_y a)"

text \<open>\<^verbatim>\<open>v / s\<close>; a zero divisor is reported instead of computed.\<close>

definition vdiv :: "Vector2f \<Rightarrow> real \<Rightarrow> Vector2f option" where
  "vdiv a s = (if s = 0 then None else Some (vec (vec_x a / s) (vec_y a / s)))"

text \<open>\<^verbatim>\<open>std::hypot\<close>.\<close>

definition hypot :: "real \<Rightarrow> real \<Rightarrow> real" where
  "hypot a b = sqrt (a * a + b * b)"

subsection \<open>Balls, container and simulation state\<close>

text \<open>
  \<open>position\<close> is \<^verbatim>\<open>shape.getPosition()\<close>; the shape's origin is its centre, so this is
  the centre of the disc.
\<close>

record Ball =
  position :: Vector2f
  velocity :: Vector2f
  radius :: real

text \<open>\<^verbatim>\<open>sf::FloatRect\<close>; the field \<^verbatim>\<open>top\<close> is named \<open>top_y\<close> here.\<close>

record FloatRect =
  left :: real
  top_y :: real
  width :: real
  height :: real

definition restitution :: real where
  "restitution = 8 / 10"

text \<open>The local variables of \<^verbatim>\<open>runCollisionSimulation\<close> that live across frames.\<close>

record Sim =
  bounds :: FloatRect
  balls :: "Ball list"
  dragging :: bool
  dragIndex :: int
  dragStart :: Vector2f
  isOpen :: bool

definition windowBounds :: FloatRect where
  "windowBounds = \<lparr>left = 50, top_y = 50, width = 800 - 100, height = 600 - 100\<rparr>"

text \<open>The state before the first frame, for the ten random centres \<open>ps\<close>.\<close>

definition newBall :: "real \<Rightarrow> Vector2f \<Rightarrow> Ball" where
  "newBall r pos = \<lparr>position = pos, velocity = vec 0 0, radius = r\<rparr>"

definition initSim :: "Vector2f list \<Rightarrow> Sim" where
  "initSim ps = \<lparr>bounds = windowBounds, balls = map (newBall 15) ps, dragging = False,
     dragIndex = - 1, dragStart = vec 0 0, isOpen = True\<rparr>"

subsection \<open>Shape operations\<close>

definition move :: "Vector2f \<Rightarrow> Ball \<Rightarrow> Ball" where
  "move off b = b\<lparr>position := vadd (position b) off\<rparr>"

definition setPosition :: "real \<Rightarrow> real \<Rightarrow> Ball \<Rightarrow> Ball" where
  "setPosition a c b = b\<lparr>position := vec a c\<rparr>"

text \<open>\<^verbatim>\<open>b.velocity.x *= -restitution\<close> and \<^verbatim>\<open>b.velocity.y *= -restitution\<close>.\<close>

definition bounceX :: "Ball \<Rightarrow> Ball" where
  "bounceX b = b\<lparr>velocity := vec (vec_x (velocity b) * (- restitution)) (vec_y (velocity b))\<rparr>"

definition bounceY :: "Ball \<Rightarrow> Ball" where
  "bounceY b = b\<lparr>velocity := vec (vec_x (velocity b)) (vec_y (velocity b) * (- restitution))\<rparr>"

subsection \<open>Events\<close>

datatype Event =
  Closed
  | SpacePressed
  | LeftPressed Vector2f
  | LeftReleased Vector2f
  | OtherEvent

text \<open>Space: every velocity is cleared and the drag is dropped.\<close>

definition clearVelocities :: "Sim \<Rightarrow> Sim" where
  "clearVelocities s =
     s\<lparr>balls := map (\<lambda>b. b\<lparr>velocity := vec 0 0\<rparr>) (balls s), dragging := False\<rparr>"

text \<open>
  The press handler's loop over \<open>i\<close>, from the index given: the first ball under the
  pointer \<open>m\<close> is grabbed and the loop is left.
\<close>

function pressLoop :: "Vector2f \<Rightarrow> nat \<Rightarrow> Sim \<Rightarrow> Sim" where
  "pressLoop m i s =
     (if i < length (balls s) then
        (let d = hypot (vec_x m - vec_x (position (balls s ! i)))
                       (vec_y m - vec_y (position (balls s ! i)))
         in if d \<le> radius (balls s ! i) then
              s\<lparr>dragging := True, dragIndex := int i, dragStart := m,
                balls := (balls s)[i := (balls s ! i)\<lparr>velocity := vec 0 0\<rparr>]\<rparr>
            else pressLoop m (i + 1) s)
      else s)"
  by pat_completeness auto
termination
  by (relation "measure (\<lambda>(m, i, s). length (balls s) - i)") auto

declare pressLoop.simps [simp del]

definition startDrag :: "Vector2f \<Rightarrow> Sim \<Rightarrow> Sim" where
  "startDrag m s = pressLoop m 0 s"

text \<open>
  The release handler. It runs only while \<open>dragging\<close>; \<^verbatim>\<open>balls[dragIndex]\<close> outside the
  vector is \<open>None\<close>.
\<close>

definition endDrag :: "Vector2f \<Rightarrow> Sim \<Rightarrow> Sim option" where
  "endDrag m s =
     (if dragging s then
        (if 0 \<le> dragIndex s \<and> nat (dragIndex s) < length (balls s) then
           Some (s\<lparr>balls := (balls s)[nat (dragIndex s) :=
                        (balls s ! nat (dragIndex s))\<lparr>velocity := vmul (vsub m (dragStart s)) 5\<rparr>],
                   dragging := False\<rparr>)
         else None)
      else Some s)"

fun handleEvent :: "Event \<Rightarrow> Sim \<Rightarrow> Sim option" where
  "handleEvent Closed s = Some (s\<lparr>isOpen := False\<rparr>)"
| "handleEvent SpacePressed s = Some (clearVelocities s)"
| "handleEvent (LeftPressed m) s = Some (startDrag m s)"
| "handleEvent (LeftReleased m) s = endDrag m s"
| "handleEvent OtherEvent s = Some s"

subsection \<open>Move and wall collision\<close>

text \<open>
  The four wall tests of one ball. \<open>p\<close> is read once, before the tests, and every
  \<^verbatim>\<open>setPosition\<close> takes its other coordinate from that \<open>p\<close>.
\<close>

definition wallCollision :: "FloatRect \<Rightarrow> Ball \<Rightarrow> Ball" where
  "wallCollision bnd b0 =
     (let p = position b0;
          b1 = (if vec_x p - radius b0 < left bnd
                then bounceX (setPosition (left bnd + radius b0) (vec_y p) b0) else b0);
          b2 = (if vec_x p + radius b1 > left bnd + width bnd
                then bounceX (setPosition (left bnd + width bnd - radius b1) (vec_y p) b1) else b1);
          b3 = (if vec_y p - radius b2 < top_y bnd
                then bounceY (setPosition (vec_x p) (top_y bnd + radius b2) b2) else b2);
          b4 = (if vec_y p + radius b3 > top_y bnd + height bnd
                then bounceY (setPosition (vec_x p) (top_y bnd + height bnd - radius b3) b3) else b3)
      in b4)"

text \<open>The body of the first loop of a frame: move by \<open>velocity * dt\<close>, then the walls.\<close>

definition moveAndWall :: "real \<Rightarrow> FloatRect \<Rightarrow> Ball \<Rightarrow> Ball" where
  "moveAndWall dt bnd b = wallCollision bnd (move (vmul (velocity b) dt) b)"

subsection \<open>Ball-ball collisions\<close>

text \<open>The body of the inner loop for the pair \<open>A = balls[i]\<close>, \<open>B = balls[j]\<close>.\<close>

definition resolvePair :: "Ball \<Rightarrow> Ball \<Rightarrow> (Ball \<times> Ball) option" where
  "resolvePair A B =
     (let d = vsub (position B) (position A);
          dist = hypot (vec_x d) (vec_y d);
          minD = radius A + radius B
      in if dist < minD \<and> dist > 0 then
           (case vdiv d dist of
              None \<Rightarrow> None
            | Some n \<Rightarrow>
                (let rel = vsub (velocity A) (velocity B);
                     vrel = vec_x rel * vec_x n + vec_y rel * vec_y n
                 in if vrel < 0 then
                      (let jimp = - (1 + restitution) * vrel / 2;
                           P = smul jimp n;
                           A1 = A\<lparr>velocity := vadd (velocity A) P\<rparr>;
                           B1 = B\<lparr>velocity := vsub (velocity B) P\<rparr>;
                           overlap = minD - dist;
                           A2 = move (vmul (vneg n) (overlap * (1 / 2))) A1;
                           B2 = move (vmul n (overlap * (1 / 2))) B1
                       in Some (A2, B2))
                    else Some (A, B)))
         else Some (A, B))"

function innerLoop :: "nat \<Rightarrow> nat \<Rightarrow> Ball list \<Rightarrow> Ball list option" where
  "innerLoop i j bs =
     (if j < length bs then
        (case resolvePair (bs ! i) (bs ! j) of
           None \<Rightarrow> None
         | Some (A, B) \<Rightarrow> innerLoop i (j + 1) (bs[i := A, j := B]))
      else Some bs)"
  by pat_completeness auto
termination
  by (relation "measure (\<lambda>(i, j, bs). length bs - j)") auto

declare innerLoop.simps [simp del]

function outerLoop :: "nat \<Rightarrow> Ball list \<Rightarrow> Ball list option" where
  "outerLoop i bs =
     (if i < length bs then
        (case innerLoop i (i + 1) bs of
           None \<Rightarrow> None
         | Some bs' \<Rightarrow> outerLoop (i + 1) bs')
      else Some bs)"
  by pat_completeness auto
termination
proof (relation "measure (\<lambda>(i, bs). length bs - i)")
  show "wf (measure (\<lambda>(i, bs). length bs - i))"
    by simp
next
  fix i :: nat and bs bs' :: "Ball list"
  assume lt: "i < length bs" and run: "innerLoop i (i + 1) bs = Some bs'"
  have keep: "innerLoop a c xs = Some ys \<Longrightarrow> length ys = length xs" for a c xs ys
  proof (induction a c xs rule: innerLoop.induct)
    case (1 a c xs)
    show ?case
    proof (cases "c < length xs")
      case True
      with "1.prems" obtain A B where
        r: "resolvePair (xs ! a) (xs ! c) = Some (A, B)" and
        k: "innerLoop a (c + 1) (xs[a := A, c := B]) = Some ys"
        by (subst (asm) innerLoop.simps) (auto split: option.splits)
      from "1.IH" [OF True r refl k] show ?thesis
        by simp
    next
      case False
      with "1.prems" show ?thesis
        by (subst (asm) innerLoop.simps) simp
    qed
  qed
  from keep [OF run] lt show "((i + 1, bs'), (i, bs)) \<in> measure (\<lambda>(i, bs). length bs - i)"
    by simp
qed

declare outerLoop.simps [simp del]

definition ballBallPass :: "Ball list \<Rightarrow> Ball list option" where
  "ballBallPass bs = outerLoop 0 bs"

subsection \<open>One frame\<close>

text \<open>Wall constraints for every ball, then the pairwise pass.\<close>

definition wallPass :: "FloatRect \<Rightarrow> Ball list \<Rightarrow> Ball list" where
  "wallPass bnd bs = map (wallCollision bnd) bs"

definition resolveAll :: "FloatRect \<Rightarrow> Ball list \<Rightarrow> Ball list option" where
  "resolveAll bnd bs = ballBallPass (wallPass bnd bs)"

text \<open>The physics of one frame, for the measured \<open>dt\<close>.\<close>

definition moveWallPass :: "real \<Rightarrow> FloatRect \<Rightarrow> Ball list \<Rightarrow> Ball list" where
  "moveWallPass dt bnd bs = map (moveAndWall dt bnd) bs"

definition step :: "real \<Rightarrow> Sim \<Rightarrow> Sim option" where
  "step dt s =
     (case ballBallPass (moveWallPass dt (bounds s) (balls s)) of
        None \<Rightarrow> None
      | Some bs \<Rightarrow> Some (s\<lparr>balls := bs\<rparr>))"

text \<open>
  One pass of the main loop: the events polled in this frame, in order, then the physics
  for the measured \<open>dt\<close>. Rendering reads the state and changes nothing.
\<close>

fun handleEvents :: "Event list \<Rightarrow> Sim \<Rightarrow> Sim option" where
  "handleEvents [] s = Some s"
| "handleEvents (e # es) s =
     (case handleEvent e s of None \<Rightarrow> None | Some s' \<Rightarrow> handleEvents es s')"

definition frame :: "Event list \<Rightarrow> real \<Rightarrow> Sim \<Rightarrow> Sim option" where
  "frame es dt s = (case handleEvents es s of None \<Rightarrow> None | Some s' \<Rightarrow> step dt s')"

section \<open>The pair step of the code in closed form\<close>

text \<open>
  The quantities lines 141 to 147 of \<^verbatim>\<open>kollision.cpp\<close> compute for the pair
  \<open>A = balls[i]\<close>, \<open>B = balls[j]\<close>, and the result of the inner-loop body written with
  them. \<open>unitNormal\<close> is the code's \<open>n\<close>: it points from \<open>A\<close> to \<open>B\<close>, since the code takes
  \<open>d = posB - posA\<close>. \<open>vrelN\<close> is the code's \<open>vrel\<close> for that \<open>n\<close> and \<open>handled\<close> the guard
  of lines 144 and 148. These are a reading of the code, proved equal to \<open>resolvePair\<close>
  below; the policy in the specification's words follows in the next section.
\<close>

definition centreDist :: "Ball \<Rightarrow> Ball \<Rightarrow> real" where
  "centreDist A B = hypot (vec_x (position B) - vec_x (position A))
                          (vec_y (position B) - vec_y (position A))"

definition minDist :: "Ball \<Rightarrow> Ball \<Rightarrow> real" where
  "minDist A B = radius A + radius B"

definition unitNormal :: "Ball \<Rightarrow> Ball \<Rightarrow> Vector2f" where
  "unitNormal A B = vec ((vec_x (position B) - vec_x (position A)) / centreDist A B)
                        ((vec_y (position B) - vec_y (position A)) / centreDist A B)"

definition dot :: "Vector2f \<Rightarrow> Vector2f \<Rightarrow> real" where
  "dot u v = vec_x u * vec_x v + vec_y u * vec_y v"

definition vrelN :: "Ball \<Rightarrow> Ball \<Rightarrow> real" where
  "vrelN A B = dot (vsub (velocity A) (velocity B)) (unitNormal A B)"

definition overlapping :: "Ball \<Rightarrow> Ball \<Rightarrow> bool" where
  "overlapping A B \<longleftrightarrow> centreDist A B < minDist A B"

definition handled :: "Ball \<Rightarrow> Ball \<Rightarrow> bool" where
  "handled A B \<longleftrightarrow> 0 < centreDist A B \<and> centreDist A B < minDist A B \<and> vrelN A B < 0"

definition impulse :: "Ball \<Rightarrow> Ball \<Rightarrow> real" where
  "impulse A B = - (1 + restitution) * vrelN A B / 2"

definition pairStep :: "Ball \<Rightarrow> Ball \<Rightarrow> Ball \<times> Ball" where
  "pairStep A B =
     (if handled A B then
        (A\<lparr>velocity := vadd (velocity A) (smul (impulse A B) (unitNormal A B)),
           position := vsub (position A)
                         (smul ((minDist A B - centreDist A B) / 2) (unitNormal A B))\<rparr>,
         B\<lparr>velocity := vsub (velocity B) (smul (impulse A B) (unitNormal A B)),
           position := vadd (position B)
                         (smul ((minDist A B - centreDist A B) / 2) (unitNormal A B))\<rparr>)
      else (A, B))"

text \<open>The pairs \<open>(i, j)\<close> with \<open>i < j < n\<close>, row by row, and one pair's step in a list.\<close>

definition rowPairs :: "nat \<Rightarrow> nat \<Rightarrow> (nat \<times> nat) list" where
  "rowPairs n i = map (Pair i) [i + 1..<n]"

definition indexPairs :: "nat \<Rightarrow> (nat \<times> nat) list" where
  "indexPairs n = concat (map (rowPairs n) [0..<n])"

definition applyPair :: "nat \<times> nat \<Rightarrow> Ball list \<Rightarrow> Ball list" where
  "applyPair ij bs =
     (case pairStep (bs ! fst ij) (bs ! snd ij) of (A, B) \<Rightarrow> bs[fst ij := A, snd ij := B])"

text \<open>
  The list after the first \<open>n\<close> pairs of the pairwise pass, and: no pair with the body
  \<open>k\<close> in it is handled when its turn comes.
\<close>

definition passTrace :: "Ball list \<Rightarrow> nat \<Rightarrow> Ball list" where
  "passTrace bs n = fold applyPair (take n (indexPairs (length bs))) bs"

definition untouched :: "Ball list \<Rightarrow> nat \<Rightarrow> bool" where
  "untouched bs k \<longleftrightarrow>
     (\<forall>n. n < length (indexPairs (length bs)) \<and>
          (fst (indexPairs (length bs) ! n) = k \<or> snd (indexPairs (length bs) ! n) = k) \<longrightarrow>
          \<not> handled (passTrace bs n ! fst (indexPairs (length bs) ! n))
                     (passTrace bs n ! snd (indexPairs (length bs) ! n)))"

section \<open>The pair loop in single-precision arithmetic\<close>

text \<open>
  The program computes in \<^verbatim>\<open>float\<close>. Above, every operation is read over the reals,
  which is what a statement about the branch taken or the formula evaluated needs. For
  statements about the values themselves the pair loop is given a second time, with each
  arithmetic operation of lines 141 to 155 followed by a rounding function \<open>r\<close> and with
  \<^verbatim>\<open>std::hypot\<close> as a parameter \<open>hyp\<close>. Negation and comparison are exact. With \<open>r\<close>
  the identity and \<open>hyp = hypot\<close> this is \<open>resolvePair\<close> and \<open>ballBallPass\<close> again, which is
  proved below.
\<close>

definition rvec :: "(real \<Rightarrow> real) \<Rightarrow> Vector2f \<Rightarrow> Vector2f" where
  "rvec r v = vec (r (vec_x v)) (r (vec_y v))"

text \<open>\<^verbatim>\<open>shape.move(off)\<close>: the sum of position and offset, rounded.\<close>

definition moveR :: "(real \<Rightarrow> real) \<Rightarrow> Vector2f \<Rightarrow> Ball \<Rightarrow> Ball" where
  "moveR r off b = b\<lparr>position := rvec r (vadd (position b) off)\<rparr>"

text \<open>
  The body of the inner loop. \<^verbatim>\<open>restitution\<close> holds the rounded \<^verbatim>\<open>0.8f\<close>; the two
  offsets \<^verbatim>\<open>-n * (overlap * 0.5f)\<close> and \<^verbatim>\<open>n * (overlap * 0.5f)\<close> are computed and added
  separately, as are \<^verbatim>\<open>A.velocity += P\<close> and \<^verbatim>\<open>B.velocity -= P\<close>.
\<close>

definition resolvePairR ::
  "(real \<Rightarrow> real) \<Rightarrow> (real \<Rightarrow> real \<Rightarrow> real) \<Rightarrow> Ball \<Rightarrow> Ball \<Rightarrow> (Ball \<times> Ball) option" where
  "resolvePairR r hyp A B =
     (let d = rvec r (vsub (position B) (position A));
          dist = hyp (vec_x d) (vec_y d);
          minD = r (radius A + radius B)
      in if dist < minD \<and> dist > 0 then
           (case vdiv d dist of
              None \<Rightarrow> None
            | Some q \<Rightarrow>
                (let n = rvec r q;
                     rel = rvec r (vsub (velocity A) (velocity B));
                     vrel = r (r (vec_x rel * vec_x n) + r (vec_y rel * vec_y n))
                 in if vrel < 0 then
                      (let jimp = r (r (- r (1 + r restitution) * vrel) / 2);
                           P = rvec r (smul jimp n);
                           A1 = A\<lparr>velocity := rvec r (vadd (velocity A) P)\<rparr>;
                           B1 = B\<lparr>velocity := rvec r (vsub (velocity B) P)\<rparr>;
                           overlap = r (minD - dist);
                           A2 = moveR r (rvec r (vmul (vneg n) (r (overlap * (1 / 2))))) A1;
                           B2 = moveR r (rvec r (vmul n (r (overlap * (1 / 2))))) B1
                       in Some (A2, B2))
                    else Some (A, B)))
         else Some (A, B))"

function innerLoopR ::
  "(real \<Rightarrow> real) \<Rightarrow> (real \<Rightarrow> real \<Rightarrow> real) \<Rightarrow> nat \<Rightarrow> nat \<Rightarrow> Ball list \<Rightarrow> Ball list option" where
  "innerLoopR r hyp i j bs =
     (if j < length bs then
        (case resolvePairR r hyp (bs ! i) (bs ! j) of
           None \<Rightarrow> None
         | Some (A, B) \<Rightarrow> innerLoopR r hyp i (j + 1) (bs[i := A, j := B]))
      else Some bs)"
  by pat_completeness auto
termination
  by (relation "measure (\<lambda>(r, hyp, i, j, bs). length bs - j)") auto

declare innerLoopR.simps [simp del]

function outerLoopR ::
  "(real \<Rightarrow> real) \<Rightarrow> (real \<Rightarrow> real \<Rightarrow> real) \<Rightarrow> nat \<Rightarrow> Ball list \<Rightarrow> Ball list option" where
  "outerLoopR r hyp i bs =
     (if i < length bs then
        (case innerLoopR r hyp i (i + 1) bs of
           None \<Rightarrow> None
         | Some bs' \<Rightarrow> outerLoopR r hyp (i + 1) bs')
      else Some bs)"
  by pat_completeness auto
termination
proof (relation "measure (\<lambda>(r, hyp, i, bs). length bs - i)")
  show "wf (measure (\<lambda>(r, hyp, i, bs). length bs - i))"
    by simp
next
  fix r :: "real \<Rightarrow> real" and hyp :: "real \<Rightarrow> real \<Rightarrow> real" and i :: nat and bs bs' :: "Ball list"
  assume lt: "i < length bs" and run: "innerLoopR r hyp i (i + 1) bs = Some bs'"
  have keep: "innerLoopR r hyp a c xs = Some ys \<Longrightarrow> length ys = length xs" for a c xs ys
  proof (induction r hyp a c xs rule: innerLoopR.induct)
    case (1 r hyp a c xs)
    show ?case
    proof (cases "c < length xs")
      case True
      with "1.prems" obtain A B where
        r: "resolvePairR r hyp (xs ! a) (xs ! c) = Some (A, B)" and
        k: "innerLoopR r hyp a (c + 1) (xs[a := A, c := B]) = Some ys"
        by (subst (asm) innerLoopR.simps) (auto split: option.splits)
      from "1.IH" [OF True r refl k] show ?thesis
        by simp
    next
      case False
      with "1.prems" show ?thesis
        by (subst (asm) innerLoopR.simps) simp
    qed
  qed
  from keep [OF run] lt
  show "((r, hyp, i + 1, bs'), (r, hyp, i, bs)) \<in> measure (\<lambda>(r, hyp, i, bs). length bs - i)"
    by simp
qed

declare outerLoopR.simps [simp del]

definition ballBallPassR ::
  "(real \<Rightarrow> real) \<Rightarrow> (real \<Rightarrow> real \<Rightarrow> real) \<Rightarrow> Ball list \<Rightarrow> Ball list option" where
  "ballBallPassR r hyp bs = outerLoopR r hyp 0 bs"

subsection \<open>The computed quantities of one pair\<close>

text \<open>
  The values of \<^verbatim>\<open>dist\<close>, \<^verbatim>\<open>minD\<close>, \<^verbatim>\<open>n\<close> and \<^verbatim>\<open>vrel\<close> as the program computes them.
  \<open>overlapsR\<close> is the test \<^verbatim>\<open>dist < minD\<close> of line 144 and \<open>resolvedR\<close> the whole guard of
  lines 144 and 148: the pair is one the pass resolves.
\<close>

definition distR :: "(real \<Rightarrow> real) \<Rightarrow> (real \<Rightarrow> real \<Rightarrow> real) \<Rightarrow> Ball \<Rightarrow> Ball \<Rightarrow> real" where
  "distR r hyp A B =
     (let d = rvec r (vsub (position B) (position A)) in hyp (vec_x d) (vec_y d))"

definition minDistR :: "(real \<Rightarrow> real) \<Rightarrow> Ball \<Rightarrow> Ball \<Rightarrow> real" where
  "minDistR r A B = r (radius A + radius B)"

definition overlapsR :: "(real \<Rightarrow> real) \<Rightarrow> (real \<Rightarrow> real \<Rightarrow> real) \<Rightarrow> Ball \<Rightarrow> Ball \<Rightarrow> bool" where
  "overlapsR r hyp A B \<longleftrightarrow> distR r hyp A B < minDistR r A B"

definition normalR :: "(real \<Rightarrow> real) \<Rightarrow> (real \<Rightarrow> real \<Rightarrow> real) \<Rightarrow> Ball \<Rightarrow> Ball \<Rightarrow> Vector2f" where
  "normalR r hyp A B =
     (let d = rvec r (vsub (position B) (position A))
      in rvec r (vec (vec_x d / distR r hyp A B) (vec_y d / distR r hyp A B)))"

definition vrelR :: "(real \<Rightarrow> real) \<Rightarrow> (real \<Rightarrow> real \<Rightarrow> real) \<Rightarrow> Ball \<Rightarrow> Ball \<Rightarrow> real" where
  "vrelR r hyp A B =
     (let n = normalR r hyp A B;
          rel = rvec r (vsub (velocity A) (velocity B))
      in r (r (vec_x rel * vec_x n) + r (vec_y rel * vec_y n)))"

definition resolvedR :: "(real \<Rightarrow> real) \<Rightarrow> (real \<Rightarrow> real \<Rightarrow> real) \<Rightarrow> Ball \<Rightarrow> Ball \<Rightarrow> bool" where
  "resolvedR r hyp A B \<longleftrightarrow>
     0 < distR r hyp A B \<and> distR r hyp A B < minDistR r A B \<and> vrelR r hyp A B < 0"

text \<open>One pair's step in a list, and: no pair other than \<open>(i, j)\<close> passes the overlap test.\<close>

definition applyPairR ::
  "(real \<Rightarrow> real) \<Rightarrow> (real \<Rightarrow> real \<Rightarrow> real) \<Rightarrow> nat \<times> nat \<Rightarrow> Ball list \<Rightarrow> Ball list" where
  "applyPairR r hyp ij bs =
     (case resolvePairR r hyp (bs ! fst ij) (bs ! snd ij) of
        None \<Rightarrow> bs
      | Some (A, B) \<Rightarrow> bs[fst ij := A, snd ij := B])"


subsection \<open>Rounding to binary32\<close>

text \<open>
  IEEE 754 binary32, round to nearest, ties to even: 24 significant bits. The exponent
  range is taken as unbounded, so there is no overflow and no subnormal number.
  \<open>rne\<close> rounds a real to the nearest integer, a tie to the even one. \<open>hypot32\<close> is a
  correctly rounded \<^verbatim>\<open>hypotf\<close>.
\<close>

definition rne :: "real \<Rightarrow> int" where
  "rne m = (let f = \<lfloor>m\<rfloor> in
             if m - of_int f < 1 / 2 then f
             else if 1 / 2 < m - of_int f then f + 1
             else if even f then f else f + 1)"

definition expo32 :: "real \<Rightarrow> int" where
  "expo32 x = \<lfloor>log 2 \<bar>x\<bar>\<rfloor> - 23"

definition round32 :: "real \<Rightarrow> real" where
  "round32 x =
     (if x = 0 then 0
      else sgn x * (of_int (rne (\<bar>x\<bar> / 2 powr of_int (expo32 x))) * 2 powr of_int (expo32 x)))"

definition hypot32 :: "real \<Rightarrow> real \<Rightarrow> real" where
  "hypot32 a b = round32 (hypot a b)"

subsection \<open>The length of a vector\<close>

definition vnorm :: "Vector2f \<Rightarrow> real" where
  "vnorm v = hypot (vec_x v) (vec_y v)"

text \<open>A vector as a complex number, for the triangle inequality.\<close>

definition cx :: "Vector2f \<Rightarrow> complex" where
  "cx v = Complex (vec_x v) (vec_y v)"

section \<open>The policies in the specification's terms\<close>

subsection \<open>Body-body resolution\<close>

text \<open>
  The specification resolves a pair when \<open>0 < dist < minD\<close> and \<open>vrel < 0\<close>, where
  \<open>vrel = (velA - velB) \<sqdot> n\<close> and \<open>vrel < 0\<close> means that the bodies are approaching. With
  \<open>vrel\<close> taken of \<open>velA - velB\<close>, that is the normal pointing from \<open>B\<close> to \<open>A\<close>:
  \<open>n = (posA - posB) / dist\<close>. The impulse is \<open>j = -(1 + e) * vrel / 2\<close>, \<open>velA\<close> becomes
  \<open>velA + j n\<close>, \<open>velB\<close> becomes \<open>velB - j n\<close>, and each body is pushed away from the other
  along \<open>n\<close> by half the overlap.
\<close>

definition specNormal :: "Ball \<Rightarrow> Ball \<Rightarrow> Vector2f" where
  "specNormal A B = vec ((vec_x (position A) - vec_x (position B)) / centreDist A B)
                        ((vec_y (position A) - vec_y (position B)) / centreDist A B)"

definition specVrel :: "Ball \<Rightarrow> Ball \<Rightarrow> real" where
  "specVrel A B = dot (vsub (velocity A) (velocity B)) (specNormal A B)"

text \<open>
  Approaching: the distance of the centres is decreasing, that is
  \<open>(posA - posB) \<sqdot> (velA - velB) < 0\<close>.
\<close>

definition approaching :: "Ball \<Rightarrow> Ball \<Rightarrow> bool" where
  "approaching A B \<longleftrightarrow>
     (vec_x (position A) - vec_x (position B)) * (vec_x (velocity A) - vec_x (velocity B)) +
     (vec_y (position A) - vec_y (position B)) * (vec_y (velocity A) - vec_y (velocity B)) < 0"

definition specImpulse :: "Ball \<Rightarrow> Ball \<Rightarrow> real" where
  "specImpulse A B = - (1 + restitution) * specVrel A B / 2"

definition specUpdate :: "Ball \<Rightarrow> Ball \<Rightarrow> Ball \<times> Ball" where
  "specUpdate A B =
     (A\<lparr>velocity := vadd (velocity A) (smul (specImpulse A B) (specNormal A B)),
        position := vadd (position A)
                      (smul ((minDist A B - centreDist A B) / 2) (specNormal A B))\<rparr>,
      B\<lparr>velocity := vsub (velocity B) (smul (specImpulse A B) (specNormal A B)),
        position := vsub (position B)
                      (smul ((minDist A B - centreDist A B) / 2) (specNormal A B))\<rparr>)"

definition specResolve :: "Ball \<Rightarrow> Ball \<Rightarrow> Ball \<times> Ball" where
  "specResolve A B =
     (if 0 < centreDist A B \<and> centreDist A B < minDist A B \<and> specVrel A B < 0
      then specUpdate A B else (A, B))"

definition midpoint :: "Ball \<Rightarrow> Ball \<Rightarrow> Vector2f" where
  "midpoint A B = vmul (vadd (position A) (position B)) (1 / 2)"

subsection \<open>Walls\<close>

definition withinWalls :: "FloatRect \<Rightarrow> Ball \<Rightarrow> bool" where
  "withinWalls bnd b \<longleftrightarrow>
     left bnd \<le> vec_x (position b) - radius b \<and>
     vec_x (position b) + radius b \<le> left bnd + width bnd \<and>
     top_y bnd \<le> vec_y (position b) - radius b \<and>
     vec_y (position b) + radius b \<le> top_y bnd + height bnd"

definition crossedX :: "FloatRect \<Rightarrow> Ball \<Rightarrow> bool" where
  "crossedX bnd b \<longleftrightarrow>
     vec_x (position b) - radius b < left bnd \<or>
     vec_x (position b) + radius b > left bnd + width bnd"

definition crossedY :: "FloatRect \<Rightarrow> Ball \<Rightarrow> bool" where
  "crossedY bnd b \<longleftrightarrow>
     vec_y (position b) - radius b < top_y bnd \<or>
     vec_y (position b) + radius b > top_y bnd + height bnd"

text \<open>The container is at least one diameter wide and high.\<close>

definition fits :: "FloatRect \<Rightarrow> Ball \<Rightarrow> bool" where
  "fits bnd b \<longleftrightarrow> 2 * radius b \<le> width bnd \<and> 2 * radius b \<le> height bnd"

subsection \<open>Drag and throw\<close>

text \<open>
  The pointer \<open>m\<close> is within the radius of \<open>b\<close>; the state after body \<open>k\<close> is grabbed
  at \<open>m\<close>; the state after the grabbed body is thrown at \<open>q\<close>; and the drag slot names
  a body of the list whenever a session is open.
\<close>

definition underPointer :: "Vector2f \<Rightarrow> Ball \<Rightarrow> bool" where
  "underPointer m b \<longleftrightarrow>
     hypot (vec_x m - vec_x (position b)) (vec_y m - vec_y (position b)) \<le> radius b"

definition grab :: "Vector2f \<Rightarrow> nat \<Rightarrow> Sim \<Rightarrow> Sim" where
  "grab m k s =
     s\<lparr>balls := (balls s)[k := (balls s ! k)\<lparr>velocity := vec 0 0\<rparr>],
       dragging := True, dragIndex := int k, dragStart := m\<rparr>"

definition throwBall :: "Vector2f \<Rightarrow> Sim \<Rightarrow> Sim" where
  "throwBall q s =
     s\<lparr>balls := (balls s)[nat (dragIndex s) :=
                   (balls s ! nat (dragIndex s))\<lparr>velocity := vmul (vsub q (dragStart s)) 5\<rparr>],
       dragging := False\<rparr>"

definition dragValid :: "Sim \<Rightarrow> bool" where
  "dragValid s \<longleftrightarrow> (dragging s \<longrightarrow> 0 \<le> dragIndex s \<and> nat (dragIndex s) < length (balls s))"

subsection \<open>Example configurations\<close>

text \<open>All in the window's container \<open>(50, 50, 700, 500)\<close>, radius 15 as in the program.\<close>

definition ballA :: Ball where
  "ballA = \<lparr>position = vec 100 100, velocity = vec 0 0, radius = 15\<rparr>"

definition ballA2 :: Ball where
  "ballA2 = \<lparr>position = vec 100 100, velocity = vec 4 0, radius = 15\<rparr>"

definition ballB :: Ball where
  "ballB = \<lparr>position = vec 120 100, velocity = vec 50 0, radius = 15\<rparr>"

definition ballC :: Ball where
  "ballC = \<lparr>position = vec 300 100, velocity = vec 7 (- 3), radius = 15\<rparr>"

definition ballH :: Ball where
  "ballH = \<lparr>position = vec 115 100, velocity = vec 50 0, radius = 15\<rparr>"

definition ballK :: Ball where
  "ballK = \<lparr>position = vec 60 60, velocity = vec (- 10) (- 10), radius = 15\<rparr>"

definition ballL :: Ball where
  "ballL = \<lparr>position = vec 60 100, velocity = vec (- 10) 2, radius = 15\<rparr>"

definition ballP :: Ball where
  "ballP = \<lparr>position = vec 100 100, velocity = vec 50 0, radius = 15\<rparr>"

definition ballQ :: Ball where
  "ballQ = \<lparr>position = vec 120 100, velocity = vec (- 50) 0, radius = 15\<rparr>"

definition ballS :: Ball where
  "ballS = \<lparr>position = vec 110 100, velocity = vec 0 0, radius = 15\<rparr>"

definition ballV :: Ball where
  "ballV = \<lparr>position = vec 85 100, velocity = vec 50 0, radius = 15\<rparr>"

definition ballW :: Ball where
  "ballW = \<lparr>position = vec 65 100, velocity = vec 0 0, radius = 15\<rparr>"

definition ballO :: Ball where
  "ballO = \<lparr>position = vec 60 100, velocity = vec 3 0, radius = 15\<rparr>"

definition ballX :: Ball where
  "ballX = \<lparr>position = vec 300 100, velocity = vec 0 0, radius = 15\<rparr>"

definition ballY :: Ball where
  "ballY = \<lparr>position = vec 315 100, velocity = vec 50 0, radius = 15\<rparr>"

definition simDrag :: Sim where
  "simDrag = \<lparr>bounds = windowBounds, balls = [ballA2, ballH], dragging = False,
     dragIndex = - 1, dragStart = vec 0 0, isOpen = True\<rparr>"

definition simOut :: Sim where
  "simOut = \<lparr>bounds = windowBounds, balls = [ballO, ballC], dragging = False,
     dragIndex = - 1, dragStart = vec 0 0, isOpen = True\<rparr>"

definition simBusy :: Sim where
  "simBusy = \<lparr>bounds = windowBounds, balls = [ballA, ballX, ballY], dragging = True,
     dragIndex = 0, dragStart = vec 101 100, isOpen = True\<rparr>"

definition simThree :: Sim where
  "simThree = \<lparr>bounds = windowBounds, balls = [ballC, ballA2, ballB], dragging = False,
     dragIndex = - 1, dragStart = vec 0 0, isOpen = True\<rparr>"

definition simHeld :: Sim where
  "simHeld = \<lparr>bounds = windowBounds, balls = [ballA, ballC], dragging = True,
     dragIndex = 0, dragStart = vec 101 100, isOpen = True\<rparr>"

text \<open>
  Two bodies whose \<open>x\<close> coordinates are binary32 numbers just above 105 and 125, and the
  bodies the single-precision pair step makes of them.
\<close>

definition ballE :: Ball where
  "ballE = \<lparr>position = vec (13762561 / 131072) 100, velocity = vec 3 0, radius = 15\<rparr>"

definition ballF :: Ball where
  "ballF = \<lparr>position = vec (16384001 / 131072) 100, velocity = vec 10 0, radius = 15\<rparr>"

definition ballE2 :: Ball where
  "ballE2 = \<lparr>position = vec (13107201 / 131072) 100, velocity = vec (2437939 / 262144) 0,
             radius = 15\<rparr>"

definition ballF2 :: Ball where
  "ballF2 = \<lparr>position = vec 130 100, velocity = vec (7759463 / 2097152) 0, radius = 15\<rparr>"

section \<open>Auxiliary facts\<close>

lemmas vec_ops = vec_def vadd_def vsub_def vneg_def vmul_def smul_def

lemmas ball_ops = setPosition_def bounceX_def bounceY_def move_def

subsection \<open>Distances\<close>

lemma hypot_x0: "hypot a 0 = \<bar>a\<bar>"
  by (simp add: hypot_def)

lemma hypot_scale: "hypot (a * c) (b * c) = hypot a b * \<bar>c\<bar>"
proof -
  have "(a * c) * (a * c) + (b * c) * (b * c) = (a * a + b * b) * (c * c)"
    by (simp add: algebra_simps)
  then show ?thesis
    by (simp add: hypot_def real_sqrt_mult)
qed

subsection \<open>One pair\<close>

lemma vdiv_Some: "s \<noteq> 0 \<Longrightarrow> vdiv a s = Some (vec (vec_x a / s) (vec_y a / s))"
  by (simp add: vdiv_def)

lemma resolvePair_cases:
  "resolvePair A B =
     (if centreDist A B < minDist A B \<and> centreDist A B > 0 \<and> vrelN A B < 0 then
        Some (move (vmul (vneg (unitNormal A B)) ((minDist A B - centreDist A B) * (1 / 2)))
                (A\<lparr>velocity := vadd (velocity A) (smul (impulse A B) (unitNormal A B))\<rparr>),
              move (vmul (unitNormal A B) ((minDist A B - centreDist A B) * (1 / 2)))
                (B\<lparr>velocity := vsub (velocity B) (smul (impulse A B) (unitNormal A B))\<rparr>))
      else Some (A, B))"
proof -
  have d: "hypot (vec_x (vsub (position B) (position A))) (vec_y (vsub (position B) (position A)))
            = centreDist A B"
    by (simp add: centreDist_def vsub_def vec_def)
  have n: "centreDist A B \<noteq> 0 \<Longrightarrow>
      vdiv (vsub (position B) (position A)) (centreDist A B) = Some (unitNormal A B)"
    by (simp add: vdiv_Some unitNormal_def vsub_def vec_def)
  show ?thesis
    unfolding resolvePair_def Let_def d
    by (auto simp add: n minDist_def impulse_def vrelN_def dot_def)
qed

lemma resolvePair_step: "resolvePair A B = Some (pairStep A B)"
proof (cases "handled A B")
  case True
  have a: "move (vmul (vneg n) (k * (1 / 2))) (A\<lparr>velocity := w\<rparr>)
           = A\<lparr>velocity := w, position := vsub (position A) (smul (k / 2) n)\<rparr>" for n k w
    by (simp add: move_def vec_ops)
  have b: "move (vmul n (k * (1 / 2))) (B\<lparr>velocity := w\<rparr>)
           = B\<lparr>velocity := w, position := vadd (position B) (smul (k / 2) n)\<rparr>" for n k w
    by (simp add: move_def vec_ops)
  from True show ?thesis
    unfolding resolvePair_cases pairStep_def a b
    by (simp add: handled_def)
next
  case False
  then show ?thesis
    unfolding resolvePair_cases pairStep_def
    by (auto simp add: handled_def)
qed

lemma not_overlapping_quiet: "\<not> overlapping A B \<Longrightarrow> \<not> handled A B"
  by (simp add: overlapping_def handled_def)

subsection \<open>The loops as a fold over the index pairs\<close>

lemma length_applyPair: "length (applyPair ij bs) = length bs"
  by (simp add: applyPair_def split: prod.splits)

lemma length_fold_applyPair: "length (fold applyPair ps bs) = length bs"
  by (induction ps arbitrary: bs) (simp_all add: length_applyPair)

lemma innerLoop_fold:
  "innerLoop i j bs = Some (fold applyPair (map (Pair i) [j..<length bs]) bs)"
proof (induction i j bs rule: innerLoop.induct)
  case (1 i j bs)
  show ?case
  proof (cases "j < length bs")
    case True
    obtain A B where r: "pairStep (bs ! i) (bs ! j) = (A, B)"
      by (cases "pairStep (bs ! i) (bs ! j)")
    then have rp: "resolvePair (bs ! i) (bs ! j) = Some (A, B)"
      by (simp add: resolvePair_step)
    have one: "applyPair (i, j) bs = bs[i := A, j := B]"
      by (simp add: applyPair_def r)
    have "innerLoop i j bs = innerLoop i (j + 1) (bs[i := A, j := B])"
      using True rp by (subst innerLoop.simps) simp
    also have "\<dots> = Some (fold applyPair (map (Pair i) [j + 1..<length bs]) (bs[i := A, j := B]))"
      using "1.IH" [OF True rp refl] by simp
    also have "\<dots> = Some (fold applyPair (map (Pair i) [j..<length bs]) bs)"
      using True by (simp add: upt_conv_Cons one)
    finally show ?thesis .
  next
    case False
    then show ?thesis
      by (subst innerLoop.simps) simp
  qed
qed

lemma outerLoop_fold:
  "outerLoop i bs = Some (fold applyPair (concat (map (rowPairs (length bs)) [i..<length bs])) bs)"
proof (induction i bs rule: outerLoop.induct)
  case (1 i bs)
  show ?case
  proof (cases "i < length bs")
    case True
    define bs' where "bs' = fold applyPair (rowPairs (length bs) i) bs"
    have inner: "innerLoop i (i + 1) bs = Some bs'"
      by (simp add: innerLoop_fold bs'_def rowPairs_def)
    have len: "length bs' = length bs"
      by (simp add: bs'_def length_fold_applyPair)
    have "outerLoop i bs = outerLoop (i + 1) bs'"
      using True inner by (subst outerLoop.simps) simp
    also have "\<dots> = Some (fold applyPair (concat (map (rowPairs (length bs)) [i + 1..<length bs])) bs')"
      using "1.IH" [OF True inner] by (simp add: len)
    also have "\<dots> = Some (fold applyPair (concat (map (rowPairs (length bs)) [i..<length bs])) bs)"
      using True by (simp add: upt_conv_Cons bs'_def)
    finally show ?thesis .
  next
    case False
    then show ?thesis
      by (subst outerLoop.simps) simp
  qed
qed

lemma ballBallPass_fold: "ballBallPass bs = Some (fold applyPair (indexPairs (length bs)) bs)"
  by (simp add: ballBallPass_def outerLoop_fold indexPairs_def)

lemma set_rowPairs: "set (rowPairs n i) = {(a, b). a = i \<and> i < b \<and> b < n}"
  by (auto simp add: rowPairs_def)

lemma set_rows: "set (concat (map (rowPairs n) is)) = {(a, b). a \<in> set is \<and> a < b \<and> b < n}"
  by (induction "is") (auto simp add: set_rowPairs)

lemma set_indexPairs: "set (indexPairs n) = {(a, b). a < b \<and> b < n}"
  unfolding indexPairs_def set_rows by auto

lemma indexPairs_3: "indexPairs 3 = [(0, 1), (0, 2), (1, 2)]"
  by (simp add: indexPairs_def rowPairs_def upt_conv_Cons)

lemma applyPair_quiet: "\<not> handled (bs ! fst p) (bs ! snd p) \<Longrightarrow> applyPair p bs = bs"
  by (simp add: applyPair_def pairStep_def)

lemma fold_quiet: "(\<And>p. p \<in> set ps \<Longrightarrow> applyPair p bs = bs) \<Longrightarrow> fold applyPair ps bs = bs"
  by (induction ps) simp_all

lemma pass_quiet:
  assumes "\<And>i j. i < j \<Longrightarrow> j < length bs \<Longrightarrow> \<not> handled (bs ! i) (bs ! j)"
  shows "ballBallPass bs = Some bs"
proof -
  have "fold applyPair (indexPairs (length bs)) bs = bs"
  proof (rule fold_quiet)
    fix p assume "p \<in> set (indexPairs (length bs))"
    then have "fst p < snd p" and "snd p < length bs"
      by (auto simp add: set_indexPairs)
    then show "applyPair p bs = bs"
      by (intro applyPair_quiet assms)
  qed
  then show ?thesis
    by (simp add: ballBallPass_fold)
qed

subsection \<open>Walls\<close>

lemma wallCollision_inside: "withinWalls bnd b \<Longrightarrow> wallCollision bnd b = b"
  by (simp add: wallCollision_def withinWalls_def Let_def)

lemma wallPass_inside: "\<forall>b\<in>set bs. withinWalls bnd b \<Longrightarrow> wallPass bnd bs = bs"
  by (simp add: wallPass_def map_idI wallCollision_inside)

subsection \<open>Distances, continued\<close>

lemma hypot_less_iff: "0 \<le> r \<Longrightarrow> hypot a b < r \<longleftrightarrow> a * a + b * b < r * r"
  unfolding hypot_def
  by (metis real_sqrt_less_iff real_sqrt_abs2 abs_of_nonneg)

lemma hypot_le_iff: "0 \<le> r \<Longrightarrow> hypot a b \<le> r \<longleftrightarrow> a * a + b * b \<le> r * r"
  unfolding hypot_def
  by (metis real_sqrt_le_iff real_sqrt_abs2 abs_of_nonneg)

subsection \<open>Single pairs and their effect on a list\<close>




lemma pushed_apart:
  assumes "handled A B" and "pairStep A B = (A', B')"
  shows "centreDist A' B' = minDist A B"
proof -
  define dx where "dx = vec_x (position B) - vec_x (position A)"
  define dy where "dy = vec_y (position B) - vec_y (position A)"
  define dist where "dist = centreDist A B"
  define c where "c = minDist A B / dist"
  from assms(1) have pos: "0 < dist" and lt: "dist < minDist A B"
    by (simp_all add: handled_def dist_def)
  have h: "hypot dx dy = dist"
    by (simp add: dist_def centreDist_def dx_def dy_def)
  have cpos: "0 < c"
    using pos lt by (simp add: c_def)
  from assms have A': "position A' = vsub (position A) (smul ((minDist A B - dist) / 2) (unitNormal A B))"
    and B': "position B' = vadd (position B) (smul ((minDist A B - dist) / 2) (unitNormal A B))"
    by (auto simp add: pairStep_def dist_def)
  have n: "unitNormal A B = vec (dx / dist) (dy / dist)"
    by (simp add: unitNormal_def dx_def dy_def dist_def)
  have x: "vec_x (position B') - vec_x (position A') = dx * c"
    using pos unfolding A' B' n by (simp add: vec_ops dx_def c_def field_simps)
  have y: "vec_y (position B') - vec_y (position A') = dy * c"
    using pos unfolding A' B' n by (simp add: vec_ops dy_def c_def field_simps)
  have "centreDist A' B' = hypot (dx * c) (dy * c)"
    by (simp add: centreDist_def x y)
  also have "\<dots> = dist * c"
    using cpos by (simp add: hypot_scale h)
  also have "\<dots> = minDist A B"
    using pos by (simp add: c_def)
  finally show ?thesis .
qed

lemma pairStep_radius:
  "pairStep A B = (A', B') \<Longrightarrow> radius A' = radius A \<and> radius B' = radius B"
  by (auto simp add: pairStep_def split: if_splits)

lemma pass_two: "ballBallPass [A, B] = Some [fst (pairStep A B), snd (pairStep A B)]"
  by (simp add: ballBallPass_fold indexPairs_def rowPairs_def upt_conv_Cons applyPair_def
      split: prod.splits)

subsection \<open>Walls, continued\<close>

lemma wallCollision_within:
  assumes "fits bnd b" and "\<not> (crossedX bnd b \<and> crossedY bnd b)"
  shows "withinWalls bnd (wallCollision bnd b)"
  using assms
  unfolding fits_def crossedX_def crossedY_def withinWalls_def wallCollision_def Let_def
  by (auto simp add: ball_ops vec_def)

text \<open>One axis crossed: that axis is clamped and its velocity component reversed and damped.\<close>

lemma wallCollision_x_only:
  assumes "fits bnd b" and "\<not> crossedY bnd b"
  shows "wallCollision bnd b =
     (if vec_x (position b) - radius b < left bnd then
        b\<lparr>position := vec (left bnd + radius b) (vec_y (position b)),
          velocity := vec (vec_x (velocity b) * (- restitution)) (vec_y (velocity b))\<rparr>
      else if vec_x (position b) + radius b > left bnd + width bnd then
        b\<lparr>position := vec (left bnd + width bnd - radius b) (vec_y (position b)),
          velocity := vec (vec_x (velocity b) * (- restitution)) (vec_y (velocity b))\<rparr>
      else b)"
  using assms
  unfolding fits_def crossedY_def wallCollision_def Let_def
  by (auto simp add: ball_ops)

lemma wallCollision_y_only:
  assumes "fits bnd b" and "\<not> crossedX bnd b"
  shows "wallCollision bnd b =
     (if vec_y (position b) - radius b < top_y bnd then
        b\<lparr>position := vec (vec_x (position b)) (top_y bnd + radius b),
          velocity := vec (vec_x (velocity b)) (vec_y (velocity b) * (- restitution))\<rparr>
      else if vec_y (position b) + radius b > top_y bnd + height bnd then
        b\<lparr>position := vec (vec_x (position b)) (top_y bnd + height bnd - radius b),
          velocity := vec (vec_x (velocity b)) (vec_y (velocity b) * (- restitution))\<rparr>
      else b)"
  using assms
  unfolding fits_def crossedX_def wallCollision_def Let_def
  by (auto simp add: ball_ops)

text \<open>Both axes crossed: the \<open>x\<close> clamp is lost, the velocity is as for each axis alone.\<close>

lemma corner_keeps_x:
  assumes "crossedX bnd b" and "crossedY bnd b"
  shows "vec_x (position (wallCollision bnd b)) = vec_x (position b)"
  using assms
  unfolding crossedX_def crossedY_def wallCollision_def Let_def
  by (auto simp add: ball_ops vec_def)

lemma wallCollision_velocity:
  assumes "fits bnd b"
  shows "velocity (wallCollision bnd b) =
     vec (if crossedX bnd b then vec_x (velocity b) * (- restitution) else vec_x (velocity b))
         (if crossedY bnd b then vec_y (velocity b) * (- restitution) else vec_y (velocity b))"
  using assms
  unfolding fits_def crossedX_def crossedY_def wallCollision_def Let_def
  by (auto simp add: ball_ops vec_def)

lemma moveAndWall_rest:
  assumes "velocity b = vec 0 0" and "withinWalls bnd b"
  shows "moveAndWall dt bnd b = b"
proof -
  have "move (vmul (velocity b) dt) b = b"
    by (simp add: assms(1) move_def vec_ops)
  with assms(2) show ?thesis
    by (simp add: moveAndWall_def wallCollision_inside)
qed

subsection \<open>The press and release handlers\<close>

lemma pressLoop_miss:
  "(\<forall>k. i \<le> k \<and> k < length (balls s) \<longrightarrow> \<not> underPointer m (balls s ! k)) \<Longrightarrow> pressLoop m i s = s"
proof (induction m i s rule: pressLoop.induct)
  case (1 m i s)
  show ?case
  proof (cases "i < length (balls s)")
    case True
    with "1.prems" have no: "\<not> underPointer m (balls s ! i)"
      by simp
    then have "pressLoop m i s = pressLoop m (i + 1) s"
      using True by (subst pressLoop.simps) (simp add: underPointer_def)
    also have "\<dots> = s"
      using True no "1.prems" by (intro "1.IH") (auto simp add: underPointer_def)
    finally show ?thesis .
  next
    case False
    then show ?thesis
      by (subst pressLoop.simps) simp
  qed
qed

lemma pressLoop_hit:
  "i \<le> k \<Longrightarrow> k < length (balls s) \<Longrightarrow> underPointer m (balls s ! k) \<Longrightarrow>
   (\<forall>l. i \<le> l \<and> l < k \<longrightarrow> \<not> underPointer m (balls s ! l)) \<Longrightarrow> pressLoop m i s = grab m k s"
proof (induction m i s rule: pressLoop.induct)
  case (1 m i s)
  from "1.prems" have lt: "i < length (balls s)"
    by simp
  show ?case
  proof (cases "i = k")
    case True
    with "1.prems" lt show ?thesis
      by (subst pressLoop.simps) (simp add: underPointer_def grab_def)
  next
    case False
    with "1.prems" have no: "\<not> underPointer m (balls s ! i)" and le: "i + 1 \<le> k"
      by simp_all
    have "pressLoop m i s = pressLoop m (i + 1) s"
      using lt no by (subst pressLoop.simps) (simp add: underPointer_def)
    also have "\<dots> = grab m k s"
      using lt no le "1.prems" by (intro "1.IH") (auto simp add: underPointer_def)
    finally show ?thesis .
  qed
qed

lemma pressLoop_cases:
  "pressLoop m i s = s \<or>
   (\<exists>k. i \<le> k \<and> k < length (balls s) \<and> underPointer m (balls s ! k) \<and> pressLoop m i s = grab m k s)"
proof (cases "\<exists>k. i \<le> k \<and> k < length (balls s) \<and> underPointer m (balls s ! k)")
  case True
  define k where "k = (LEAST k. i \<le> k \<and> k < length (balls s) \<and> underPointer m (balls s ! k))"
  from True have k: "i \<le> k \<and> k < length (balls s) \<and> underPointer m (balls s ! k)"
    unfolding k_def by (rule LeastI_ex)
  have "\<not> underPointer m (balls s ! l)" if "i \<le> l" "l < k" for l
    using that k not_less_Least [of l "\<lambda>k. i \<le> k \<and> k < length (balls s) \<and> underPointer m (balls s ! k)"]
    unfolding k_def by auto
  with k have "pressLoop m i s = grab m k s"
    by (intro pressLoop_hit) auto
  with k show ?thesis
    by blast
next
  case False
  then have "pressLoop m i s = s"
    by (intro pressLoop_miss) blast
  then show ?thesis ..
qed

lemma endDrag_valid: "dragging s \<Longrightarrow> dragValid s \<Longrightarrow> endDrag q s = Some (throwBall q s)"
  by (simp add: endDrag_def dragValid_def throwBall_def)

lemma dragValid_grab: "k < length (balls s) \<Longrightarrow> dragValid (grab m k s)"
  by (simp add: dragValid_def grab_def)

lemma dragValid_init: "dragValid (initSim ps)"
  by (simp add: dragValid_def initSim_def)

lemma dragValid_startDrag: "dragValid s \<Longrightarrow> dragValid (startDrag m s)"
  using pressLoop_cases [of m 0 s] by (auto simp add: startDrag_def dragValid_grab)

lemma dragValid_event: "dragValid s \<Longrightarrow> \<exists>s'. handleEvent e s = Some s' \<and> dragValid s'"
proof (cases e)
  case (LeftReleased q)
  assume "dragValid s"
  then show ?thesis
    unfolding LeftReleased by (cases "dragging s")
      (simp_all add: endDrag_valid, simp_all add: endDrag_def dragValid_def throwBall_def)
qed (simp_all add: dragValid_startDrag, simp_all add: dragValid_def clearVelocities_def)

lemma step_Some:
  "step dt s = Some (s\<lparr>balls := fold applyPair (indexPairs (length (balls s)))
                                  (moveWallPass dt (bounds s) (balls s))\<rparr>)"
  by (simp add: step_def ballBallPass_fold moveWallPass_def)

lemma dragValid_step: "dragValid s \<Longrightarrow> \<exists>s'. step dt s = Some s' \<and> dragValid s'"
  by (simp add: step_Some dragValid_def length_fold_applyPair moveWallPass_def)

lemma dragValid_events: "dragValid s \<Longrightarrow> \<exists>s'. handleEvents es s = Some s' \<and> dragValid s'"
proof (induction es arbitrary: s)
  case Nil
  then show ?case by simp
next
  case (Cons e es)
  from dragValid_event [OF Cons.prems, of e] obtain s1 where
    s1: "handleEvent e s = Some s1" "dragValid s1"
    by blast
  with Cons.IH [of s1] show ?case
    by simp
qed

text \<open>
  From the initial state on, the drag slot stays valid and no frame reads outside the
  vector or divides by zero.
\<close>

lemma frame_total: "dragValid s \<Longrightarrow> \<exists>s'. frame es dt s = Some s' \<and> dragValid s'"
proof -
  assume "dragValid s"
  then obtain s1 where s1: "handleEvents es s = Some s1" "dragValid s1"
    using dragValid_events by blast
  with dragValid_step [of s1 dt] show ?thesis
    by (simp add: frame_def)
qed

lemma map_update_same: "(map f xs)[k := f (xs ! k)] = map f xs"
proof (cases "k < length xs")
  case True
  then have "f (xs ! k) = map f xs ! k"
    by simp
  then show ?thesis
    by (simp only: list_update_id)
next
  case False
  then show ?thesis
    by (simp add: list_update_beyond)
qed

subsection \<open>The example configurations\<close>

lemma centreDist_WV: "centreDist ballW ballV = 20"
  by (simp add: centreDist_def ballW_def ballV_def vec_def hypot_x0)

lemma pairStep_WV:
  "pairStep ballW ballV =
     (\<lparr>position = vec 60 100, velocity = vec 45 0, radius = 15\<rparr>,
      \<lparr>position = vec 90 100, velocity = vec 5 0, radius = 15\<rparr>)"
  by (simp add: pairStep_def handled_def centreDist_WV minDist_def vrelN_def unitNormal_def
      impulse_def dot_def restitution_def)
     (simp add: ballW_def ballV_def vec_ops)

lemma centreDist_AB: "centreDist ballA ballB = 20"
  by (simp add: centreDist_def ballA_def ballB_def vec_def hypot_x0)

lemma pairStep_AB:
  "pairStep ballA ballB =
     (\<lparr>position = vec 95 100, velocity = vec 45 0, radius = 15\<rparr>,
      \<lparr>position = vec 125 100, velocity = vec 5 0, radius = 15\<rparr>)"
  by (simp add: pairStep_def handled_def centreDist_AB minDist_def vrelN_def unitNormal_def
      impulse_def dot_def restitution_def)
     (simp add: ballA_def ballB_def vec_ops)

lemma handled_AB: "handled ballA ballB"
  by (simp add: handled_def centreDist_AB minDist_def vrelN_def unitNormal_def dot_def)
     (simp add: ballA_def ballB_def vec_ops)

text \<open>
  With \<open>d = posB - posA\<close>, two bodies moving towards each other have \<open>vrel > 0\<close>: the
  pair is not handled. The pair \<open>ballA\<close>, \<open>ballB\<close> above, moving apart, is.
\<close>

lemma head_on_not_handled: "\<not> handled ballP ballQ \<and> pairStep ballP ballQ = (ballP, ballQ)"
proof -
  have "centreDist ballP ballQ = 20"
    by (simp add: centreDist_def ballP_def ballQ_def vec_def hypot_x0)
  then have "vrelN ballP ballQ = 100"
    by (simp add: vrelN_def dot_def unitNormal_def) (simp add: ballP_def ballQ_def vec_ops)
  then have "\<not> handled ballP ballQ"
    by (simp add: handled_def)
  then show ?thesis
    by (simp add: pairStep_def)
qed

lemma centreDist_AS: "centreDist ballA ballS = 10"
  by (simp add: centreDist_def ballA_def ballS_def vec_def hypot_x0)

lemma under_101: "\<not> underPointer (vec 101 100) ballC" "underPointer (vec 101 100) ballA2"
  by (simp_all add: underPointer_def ballC_def ballA2_def vec_def hypot_x0)

subsection \<open>The code's gate against the specification's\<close>

text \<open>
  The code applies the specification's update, but to the pairs with \<open>vrel > 0\<close> in the
  specification's orientation: those moving apart.
\<close>

lemma diff_quot_neg: "(a - b) / c = - ((b - a) / (c::real))"
  by (metis minus_diff_eq minus_divide_left)

lemma specNormal_neg: "specNormal A B = vneg (unitNormal A B)"
  by (simp add: specNormal_def unitNormal_def vec_ops diff_quot_neg [of "vec_x (position A)"]
      diff_quot_neg [of "vec_y (position A)"])

lemma specVrel_neg: "specVrel A B = - vrelN A B"
  by (simp add: specVrel_def vrelN_def dot_def specNormal_neg vec_ops)

lemma specUpdate_pairStep: "handled A B \<Longrightarrow> pairStep A B = specUpdate A B"
  by (simp add: pairStep_def specUpdate_def specImpulse_def impulse_def specVrel_neg specNormal_neg
      vec_ops)

lemma gate_inverted:
  "resolvePair A B =
     Some (if 0 < centreDist A B \<and> centreDist A B < minDist A B \<and> 0 < specVrel A B
           then specUpdate A B else (A, B))"
proof (cases "handled A B")
  case True
  then show ?thesis
    by (simp add: resolvePair_step specUpdate_pairStep) (simp add: handled_def specVrel_neg)
next
  case False
  then show ?thesis
    by (auto simp add: resolvePair_step pairStep_def handled_def specVrel_neg)
qed

lemma specVrel_approaching:
  assumes "0 < centreDist A B"
  shows "specVrel A B < 0 \<longleftrightarrow> approaching A B"
proof -
  have "specVrel A B * centreDist A B =
      (vec_x (position A) - vec_x (position B)) * (vec_x (velocity A) - vec_x (velocity B)) +
      (vec_y (position A) - vec_y (position B)) * (vec_y (velocity A) - vec_y (velocity B))"
    using assms by (simp add: specVrel_def dot_def specNormal_def vec_ops field_simps)
  then have "approaching A B \<longleftrightarrow> specVrel A B * centreDist A B < 0"
    by (simp add: approaching_def)
  also have "\<dots> \<longleftrightarrow> specVrel A B < 0"
    using assms by (simp add: mult_less_0_iff)
  finally show ?thesis ..
qed

lemma centreDist_PQ: "centreDist ballP ballQ = 20"
  by (simp add: centreDist_def ballP_def ballQ_def vec_def hypot_x0)

lemma specVrel_PQ: "specVrel ballP ballQ = - 100"
  by (simp add: specVrel_def dot_def specNormal_def centreDist_PQ) (simp add: ballP_def ballQ_def vec_ops)

subsection \<open>Bodies the pairwise pass leaves alone\<close>

lemma applyPair_radius: "map radius (applyPair p bs) = map radius bs"
proof -
  obtain A B where r: "pairStep (bs ! fst p) (bs ! snd p) = (A, B)"
    by (cases "pairStep (bs ! fst p) (bs ! snd p)")
  from pairStep_radius [OF r] show ?thesis
    by (simp add: applyPair_def r map_update) (metis map_update_same)
qed

lemma fold_applyPair_radius: "map radius (fold applyPair ps bs) = map radius bs"
  by (induction ps arbitrary: bs) (simp_all add: applyPair_radius)

lemma pass_radius:
  assumes "ballBallPass bs = Some bs'" and "k < length bs"
  shows "radius (bs' ! k) = radius (bs ! k)"
proof -
  from assms(1) have "map radius bs' = map radius bs"
    by (auto simp add: ballBallPass_fold fold_applyPair_radius)
  then have "map radius bs' ! k = map radius bs ! k"
    by simp
  moreover from assms(1) have "length bs' = length bs"
    by (auto simp add: ballBallPass_fold length_fold_applyPair)
  ultimately show ?thesis
    using assms(2) by simp
qed

lemma applyPair_other: "fst p \<noteq> k \<Longrightarrow> snd p \<noteq> k \<Longrightarrow> applyPair p bs ! k = bs ! k"
  by (simp add: applyPair_def split: prod.splits)

lemma trace_keeps:
  assumes "untouched bs k"
  shows "n \<le> length (indexPairs (length bs)) \<Longrightarrow> passTrace bs n ! k = bs ! k"
proof (induction n)
  case 0
  show ?case
    by (simp add: passTrace_def)
next
  case (Suc n)
  let ?ps = "indexPairs (length bs)"
  let ?p = "?ps ! n"
  from Suc.prems have n: "n < length ?ps"
    by simp
  then have step: "passTrace bs (Suc n) = applyPair ?p (passTrace bs n)"
    by (simp add: passTrace_def take_Suc_conv_app_nth)
  have "applyPair ?p (passTrace bs n) ! k = passTrace bs n ! k"
  proof (cases "fst ?p = k \<or> snd ?p = k")
    case True
    with assms n have "\<not> handled (passTrace bs n ! fst ?p) (passTrace bs n ! snd ?p)"
      unfolding untouched_def by blast
    then show ?thesis
      by (simp add: applyPair_quiet)
  next
    case False
    then show ?thesis
      by (simp add: applyPair_other)
  qed
  with step Suc.IH n show ?case
    by simp
qed

lemma pass_untouched:
  assumes "untouched bs k"
  shows "\<exists>bs'. ballBallPass bs = Some bs' \<and> length bs' = length bs \<and> bs' ! k = bs ! k"
proof -
  have "passTrace bs (length (indexPairs (length bs))) ! k = bs ! k"
    using assms by (intro trace_keeps) simp_all
  then show ?thesis
    by (simp add: ballBallPass_fold passTrace_def length_fold_applyPair)
qed

lemma indexPairs_len3: "indexPairs (length [a, b, c]) = [(0, 1), (0, 2), (1, 2)]"
proof -
  have "length [a, b, c] = 3"
    by simp
  then show ?thesis
    by (simp only: indexPairs_3)
qed

lemma pairStep_XY:
  "pairStep ballX \<lparr>position = vec 320 100, velocity = vec 50 0, radius = 15\<rparr> =
     (\<lparr>position = vec 295 100, velocity = vec 45 0, radius = 15\<rparr>,
      \<lparr>position = vec 325 100, velocity = vec 5 0, radius = 15\<rparr>)"
proof -
  have d: "centreDist ballX \<lparr>position = vec 320 100, velocity = vec 50 0, radius = 15\<rparr> = 20"
    by (simp add: centreDist_def ballX_def vec_def hypot_x0)
  show ?thesis
    by (simp add: pairStep_def handled_def d minDist_def vrelN_def unitNormal_def impulse_def dot_def
        restitution_def)
       (simp add: ballX_def vec_ops)
qed

subsection \<open>Rounding to binary32\<close>

lemma rne_error: "\<bar>of_int (rne m) - m\<bar> \<le> 1 / 2"
  unfolding rne_def Let_def by (auto simp add: abs_if) linarith+

lemma two_powr_diff: "2 powr (numeral k - real n) = (2::real) ^ numeral k / 2 ^ n"
  by (simp add: powr_diff powr_realpow)

lemma expo32_scaled:
  assumes "2 ^ 23 \<le> \<bar>x\<bar> * 2 ^ n" and "\<bar>x\<bar> * 2 ^ n < 2 ^ 24"
  shows "expo32 x = - int n"
proof -
  have pos: "0 < \<bar>x\<bar>"
    using assms(1) by (cases "x = 0") simp_all
  have lo: "2 powr of_int (23 - int n) \<le> \<bar>x\<bar>"
    using assms(1) by (simp add: two_powr_diff field_simps)
  have "real_of_int (23 - int n + 1) = 24 - real n"
    by simp
  then have hi: "\<bar>x\<bar> < 2 powr of_int (23 - int n + 1)"
    using assms(2) by (simp only: two_powr_diff) (simp add: field_simps)
  from lo hi have "\<lfloor>log 2 \<bar>x\<bar>\<rfloor> = 23 - int n"
    using floor_log_eq_powr_iff [OF pos, of 2 "23 - int n"] by simp
  then show ?thesis
    by (simp add: expo32_def)
qed

text \<open>The value of \<open>round32\<close> at a number whose exponent is known.\<close>

lemma round32_scaled:
  assumes "2 ^ 23 \<le> \<bar>x\<bar> * 2 ^ n" and "\<bar>x\<bar> * 2 ^ n < 2 ^ 24"
  shows "round32 x = sgn x * (of_int (rne (\<bar>x\<bar> * 2 ^ n)) / 2 ^ n)"
proof -
  have e: "expo32 x = - int n"
    using assms by (rule expo32_scaled)
  have nz: "x \<noteq> 0"
    using assms(1) by auto
  have p: "2 powr (- real n) = 1 / (2::real) ^ n"
    by (simp add: powr_minus powr_realpow inverse_eq_divide)
  show ?thesis
    using nz by (simp add: round32_def e p)
qed

lemma round32_odd: "round32 (- x) = - round32 x"
  by (simp add: round32_def expo32_def)

text \<open>One rounding is off by at most \<open>|x| / 2 ^ 24\<close>.\<close>

lemma round32_error: "\<bar>round32 x - x\<bar> \<le> \<bar>x\<bar> / 2 ^ 24"
proof (cases "x = 0")
  case True
  then show ?thesis
    by (simp add: round32_def)
next
  case False
  define p :: real where "p = 2 powr of_int (expo32 x)"
  define m where "m = \<bar>x\<bar> / p"
  have pos: "0 < \<bar>x\<bar>" and p: "0 < p"
    using False by (simp_all add: p_def)
  have x: "\<bar>x\<bar> = m * p"
    using p by (simp add: m_def)
  have "2 powr of_int \<lfloor>log 2 \<bar>x\<bar>\<rfloor> \<le> \<bar>x\<bar>"
    using floor_log_eq_powr_iff [OF pos, of 2 "\<lfloor>log 2 \<bar>x\<bar>\<rfloor>"] by simp
  moreover have "2 powr of_int \<lfloor>log 2 \<bar>x\<bar>\<rfloor> = p * 2 ^ 23"
    by (simp add: p_def expo32_def powr_diff)
  ultimately have big: "2 ^ 23 \<le> m"
    using p by (simp add: m_def field_simps)
  have "round32 x - x = sgn x * (of_int (rne m) * p - \<bar>x\<bar>)"
    using False by (simp add: round32_def p_def m_def algebra_simps mult_sgn_abs abs_mult_sgn)
  also have "of_int (rne m) * p - \<bar>x\<bar> = (of_int (rne m) - m) * p"
    by (simp add: x algebra_simps)
  finally have "\<bar>round32 x - x\<bar> = \<bar>of_int (rne m) - m\<bar> * p"
    using False p by (simp add: abs_mult abs_sgn_eq)
  also have "\<dots> \<le> 1 / 2 * p"
    using p by (intro mult_right_mono rne_error) simp
  also have "\<dots> \<le> m * p / 2 ^ 24"
    using big p by (simp add: field_simps)
  finally show ?thesis
    by (simp add: x)
qed


lemma round32_zero: "round32 0 = 0"
  by (simp add: round32_def)

lemma round32_values:
  "round32 (20) = 20"
  "round32 (30) = 30"
  "round32 (1) = 1"
  "round32 (- 7) = - 7"
  "round32 (4 / 5) = 13421773 / 16777216"
  "round32 (30198989 / 16777216) = 7549747 / 4194304"
  "round32 (52848229 / 4194304) = 13212057 / 1048576"
  "round32 (13212057 / 2097152) = 13212057 / 2097152"
  "round32 (19503513 / 2097152) = 2437939 / 262144"
  "round32 (7759463 / 2097152) = 7759463 / 2097152"
  "round32 (10) = 10"
  "round32 (5) = 5"
  "round32 (- 5) = - 5"
  "round32 (13107201 / 131072) = 13107201 / 131072"
  "round32 (17039361 / 131072) = 130"
  "round32 (100) = 100"
  "round32 (170) = 170"
  "round32 (175) = 175"
  "round32 (195) = 195"
  "round32 (200) = 200"
  "round32 (22937599 / 131072) = 175"
  "round32 (25559039 / 131072) = 195"
  "round32 (26214399 / 131072) = 200"
proof -
  show "round32 (20) = 20"
    by (subst round32_scaled [of _ 19]) (simp_all add: rne_def)
  show "round32 (30) = 30"
    by (subst round32_scaled [of _ 19]) (simp_all add: rne_def)
  show "round32 (1) = 1"
    by (subst round32_scaled [of _ 23]) (simp_all add: rne_def)
  show "round32 (- 7) = - 7"
    by (subst round32_scaled [of _ 21]) (simp_all add: rne_def)
  show "round32 (4 / 5) = 13421773 / 16777216"
    by (subst round32_scaled [of _ 24]) (simp_all add: rne_def)
  show "round32 (30198989 / 16777216) = 7549747 / 4194304"
    by (subst round32_scaled [of _ 23]) (simp_all add: rne_def)
  show "round32 (52848229 / 4194304) = 13212057 / 1048576"
    by (subst round32_scaled [of _ 20]) (simp_all add: rne_def)
  show "round32 (13212057 / 2097152) = 13212057 / 2097152"
    by (subst round32_scaled [of _ 21]) (simp_all add: rne_def)
  show "round32 (19503513 / 2097152) = 2437939 / 262144"
    by (subst round32_scaled [of _ 20]) (simp_all add: rne_def)
  show "round32 (7759463 / 2097152) = 7759463 / 2097152"
    by (subst round32_scaled [of _ 22]) (simp_all add: rne_def)
  show "round32 (10) = 10"
    by (subst round32_scaled [of _ 20]) (simp_all add: rne_def)
  show "round32 (5) = 5"
    by (subst round32_scaled [of _ 21]) (simp_all add: rne_def)
  show "round32 (- 5) = - 5"
    by (subst round32_scaled [of _ 21]) (simp_all add: rne_def)
  show "round32 (13107201 / 131072) = 13107201 / 131072"
    by (subst round32_scaled [of _ 17]) (simp_all add: rne_def)
  show "round32 (17039361 / 131072) = 130"
    by (subst round32_scaled [of _ 16]) (simp_all add: rne_def)
  show "round32 (100) = 100"
    by (subst round32_scaled [of _ 17]) (simp_all add: rne_def)
  show "round32 (170) = 170"
    by (subst round32_scaled [of _ 16]) (simp_all add: rne_def)
  show "round32 (175) = 175"
    by (subst round32_scaled [of _ 16]) (simp_all add: rne_def)
  show "round32 (195) = 195"
    by (subst round32_scaled [of _ 16]) (simp_all add: rne_def)
  show "round32 (200) = 200"
    by (subst round32_scaled [of _ 16]) (simp_all add: rne_def)
  show "round32 (22937599 / 131072) = 175"
    by (subst round32_scaled [of _ 16]) (simp_all add: rne_def)
  show "round32 (25559039 / 131072) = 195"
    by (subst round32_scaled [of _ 16]) (simp_all add: rne_def)
  show "round32 (26214399 / 131072) = 200"
    by (subst round32_scaled [of _ 16]) (simp_all add: rne_def)
qed

subsection \<open>The rounded pair step\<close>

text \<open>With exact arithmetic the rounded pair step is the pair step over the reals.\<close>

lemma resolvePairR_exact: "resolvePairR (\<lambda>x. x) hypot A B = resolvePair A B"
proof -
  have i: "rvec (\<lambda>x. x) v = v" for v
    by (simp add: rvec_def vec_def)
  show ?thesis
    by (simp add: resolvePairR_def resolvePair_def moveR_def move_def Let_def i
        cong: option.case_cong if_cong)
qed

lemma resolvePairR_cases:
  "resolvePairR r hyp A B = Some (A, B) \<or>
   (\<exists>P n h. resolvePairR r hyp A B =
      Some (A\<lparr>velocity := rvec r (vadd (velocity A) P),
              position := rvec r (vadd (position A) (rvec r (vmul (vneg n) h)))\<rparr>,
            B\<lparr>velocity := rvec r (vsub (velocity B) P),
              position := rvec r (vadd (position B) (rvec r (vmul n h)))\<rparr>))"
  unfolding resolvePairR_def Let_def moveR_def
  by (auto simp add: vdiv_def)

lemma resolvePairR_total: "\<exists>A' B'. resolvePairR r hyp A B = Some (A', B')"
  using resolvePairR_cases [of r hyp A B] by auto




subsection \<open>The rounded pass as a fold\<close>

lemma length_applyPairR: "length (applyPairR r hyp ij bs) = length bs"
  by (simp add: applyPairR_def split: option.splits prod.splits)

lemma length_fold_applyPairR: "length (fold (applyPairR r hyp) ps bs) = length bs"
  by (induction ps arbitrary: bs) (simp_all add: length_applyPairR)

lemma innerLoopR_fold:
  "innerLoopR r hyp i j bs = Some (fold (applyPairR r hyp) (map (Pair i) [j..<length bs]) bs)"
proof (induction r hyp i j bs rule: innerLoopR.induct)
  case (1 r hyp i j bs)
  show ?case
  proof (cases "j < length bs")
    case True
    obtain A B where rp: "resolvePairR r hyp (bs ! i) (bs ! j) = Some (A, B)"
      using resolvePairR_total by blast
    have one: "applyPairR r hyp (i, j) bs = bs[i := A, j := B]"
      by (simp add: applyPairR_def rp)
    have "innerLoopR r hyp i j bs = innerLoopR r hyp i (j + 1) (bs[i := A, j := B])"
      using True rp by (subst innerLoopR.simps) simp
    also have "\<dots> = Some (fold (applyPairR r hyp) (map (Pair i) [j + 1..<length bs]) (bs[i := A, j := B]))"
      using "1.IH" [OF True rp refl] by simp
    also have "\<dots> = Some (fold (applyPairR r hyp) (map (Pair i) [j..<length bs]) bs)"
      using True by (simp add: upt_conv_Cons one)
    finally show ?thesis .
  next
    case False
    then show ?thesis
      by (subst innerLoopR.simps) simp
  qed
qed

lemma outerLoopR_fold:
  "outerLoopR r hyp i bs =
     Some (fold (applyPairR r hyp) (concat (map (rowPairs (length bs)) [i..<length bs])) bs)"
proof (induction r hyp i bs rule: outerLoopR.induct)
  case (1 r hyp i bs)
  show ?case
  proof (cases "i < length bs")
    case True
    define bs' where "bs' = fold (applyPairR r hyp) (rowPairs (length bs) i) bs"
    have inner: "innerLoopR r hyp i (i + 1) bs = Some bs'"
      by (simp add: innerLoopR_fold bs'_def rowPairs_def)
    have len: "length bs' = length bs"
      by (simp add: bs'_def length_fold_applyPairR)
    have "outerLoopR r hyp i bs = outerLoopR r hyp (i + 1) bs'"
      using True inner by (subst outerLoopR.simps) simp
    also have "\<dots> = Some (fold (applyPairR r hyp) (concat (map (rowPairs (length bs)) [i + 1..<length bs])) bs')"
      using "1.IH" [OF True inner] by (simp add: len)
    also have "\<dots> = Some (fold (applyPairR r hyp) (concat (map (rowPairs (length bs)) [i..<length bs])) bs)"
      using True by (simp add: upt_conv_Cons bs'_def)
    finally show ?thesis .
  next
    case False
    then show ?thesis
      by (subst outerLoopR.simps) simp
  qed
qed

lemma ballBallPassR_fold:
  "ballBallPassR r hyp bs = Some (fold (applyPairR r hyp) (indexPairs (length bs)) bs)"
  by (simp add: ballBallPassR_def outerLoopR_fold indexPairs_def)

text \<open>With exact arithmetic the rounded pass is the pass over the reals.\<close>

lemma applyPairR_exact: "applyPairR (\<lambda>x. x) hypot = applyPair"
  by (intro ext) (simp add: applyPairR_def applyPair_def resolvePairR_exact resolvePair_step)

lemma ballBallPassR_exact: "ballBallPassR (\<lambda>x. x) hypot bs = ballBallPass bs"
  by (simp add: ballBallPassR_fold ballBallPass_fold applyPairR_exact)





subsection \<open>Vectors as complex numbers\<close>

lemma vnorm_cx: "vnorm v = cmod (cx v)"
  by (simp add: vnorm_def cx_def hypot_def cmod_def power2_eq_square)

lemma cx_ops:
  "cx (vadd a b) = cx a + cx b" "cx (vsub a b) = cx a - cx b" "cx (vneg a) = - cx a"
  "cx (vmul a s) = cx a * of_real s" "cx (smul s a) = of_real s * cx a"
  by (simp_all add: cx_def vec_ops complex_eq_iff)

lemma cmod_Complex_le:
  assumes "\<bar>a\<bar> \<le> u * \<bar>x\<bar>" and "\<bar>b\<bar> \<le> u * \<bar>y\<bar>" and "0 \<le> u"
  shows "cmod (Complex a b) \<le> u * cmod (Complex x y)"
proof -
  have "\<bar>a\<bar> \<le> \<bar>u * x\<bar>" and "\<bar>b\<bar> \<le> \<bar>u * y\<bar>"
    using assms by (simp_all add: abs_mult)
  then have "a\<^sup>2 \<le> (u * x)\<^sup>2" and "b\<^sup>2 \<le> (u * y)\<^sup>2"
    by (simp_all only: abs_le_square_iff)
  then have "a\<^sup>2 + b\<^sup>2 \<le> u\<^sup>2 * (x\<^sup>2 + y\<^sup>2)"
    by (simp add: power_mult_distrib algebra_simps)
  then have "sqrt (a\<^sup>2 + b\<^sup>2) \<le> sqrt (u\<^sup>2 * (x\<^sup>2 + y\<^sup>2))"
    by (rule real_sqrt_le_mono)
  also have "\<dots> = u * sqrt (x\<^sup>2 + y\<^sup>2)"
    using assms(3) by (simp add: real_sqrt_mult)
  finally show ?thesis
    by (simp add: cmod_def)
qed

lemma rvec_error:
  assumes "\<forall>x. \<bar>r x - x\<bar> \<le> u * \<bar>x\<bar>" and "0 \<le> u"
  shows "cmod (cx (rvec r v) - cx v) \<le> u * cmod (cx v)"
proof -
  have "cx (rvec r v) - cx v = Complex (r (vec_x v) - vec_x v) (r (vec_y v) - vec_y v)"
    by (simp add: cx_def rvec_def vec_def complex_eq_iff)
  moreover have "cmod (Complex (r (vec_x v) - vec_x v) (r (vec_y v) - vec_y v))
      \<le> u * cmod (Complex (vec_x v) (vec_y v))"
    using assms by (intro cmod_Complex_le) simp_all
  ultimately show ?thesis
    by (simp add: cx_def)
qed

lemma rvec_odd:
  assumes "\<forall>x. r (- x) = - r x"
  shows "rvec r (vmul (vneg n) h) = vneg (rvec r (vmul n h))"
  using assms by (simp add: rvec_def vec_ops)

lemma round_back:
  assumes "cmod (z' - z) \<le> u * cmod z" and "0 \<le> u" and "u \<le> 1 / 2"
  shows "cmod (z' - z) \<le> 2 * u * cmod z'"
proof -
  have "cmod z \<le> cmod z' + cmod (z' - z)"
    using norm_triangle_ineq2 [of z z'] by (simp add: norm_minus_commute)
  with assms(1) have "cmod z \<le> cmod z' + u * cmod z"
    by simp
  moreover have "u * cmod z \<le> 1 / 2 * cmod z"
    using assms(3) by (intro mult_right_mono) simp_all
  ultimately have "cmod z \<le> 2 * cmod z'"
    by simp
  then have "u * cmod z \<le> u * (2 * cmod z')"
    using assms(2) by (rule mult_left_mono)
  with assms(1) show ?thesis
    by simp
qed



subsection \<open>How far apart a resolved pair ends\<close>



subsection \<open>The single-precision examples\<close>

lemma resolvePairR_EF: "resolvePairR round32 hypot32 ballE ballF = Some (ballE2, ballF2)"
  by (simp add: resolvePairR_def ballE_def ballF_def ballE2_def ballF2_def Let_def rvec_def
      moveR_def vec_ops vdiv_def hypot32_def hypot_x0 restitution_def round32_values round32_zero)




text \<open>
  A pair the guard of line 148 skips is not a resolved pair: two overlapping bodies at
  rest stay 10 apart where the sum of radii is 30.
\<close>

lemma skipped_pair_kept:
  "overlapsR round32 hypot32 ballA ballS \<and> \<not> resolvedR round32 hypot32 ballA ballS \<and>
   ballBallPassR round32 hypot32 [ballA, ballS] = Some [ballA, ballS] \<and>
   centreDist ballA ballS = 10 \<and> minDist ballA ballS = 30"
proof -
  have o: "overlapsR round32 hypot32 ballA ballS"
    by (simp add: overlapsR_def distR_def minDistR_def ballA_def ballS_def Let_def rvec_def
        vec_ops hypot32_def hypot_x0 round32_values round32_zero)
  have n: "\<not> resolvedR round32 hypot32 ballA ballS"
    by (simp add: resolvedR_def distR_def minDistR_def vrelR_def normalR_def ballA_def ballS_def
        Let_def rvec_def vec_ops hypot32_def hypot_x0 round32_values round32_zero)
  have "resolvePairR round32 hypot32 ballA ballS = Some (ballA, ballS)"
    by (simp add: resolvePairR_def ballA_def ballS_def Let_def rvec_def vec_ops vdiv_def
        hypot32_def hypot_x0 round32_values round32_zero)
  then have "ballBallPassR round32 hypot32 [ballA, ballS] = Some [ballA, ballS]"
    by (simp add: ballBallPassR_fold indexPairs_def rowPairs_def upt_conv_Cons applyPairR_def)
  with o n show ?thesis
    by (simp add: centreDist_AS minDist_def) (simp add: ballA_def ballS_def)
qed

section \<open>The claims of the specification\<close>

text \<open>
  C1. Wall containment, as the code has it. After the wall pass, a body whose edges
  did not cross both an x boundary and a y boundary is within the four bounds, in a
  container at least one diameter wide and high. \<open>resolveAll\<close> returns a list of the
  same length, and such a body is within the four bounds in it when the pairwise pass
  has left its position where the wall pass put it.
\<close>

theorem wall_containment:
  assumes "k < length bs" and "fits bnd (bs ! k)"
    and "\<not> (crossedX bnd (bs ! k) \<and> crossedY bnd (bs ! k))"
  shows "withinWalls bnd (wallPass bnd bs ! k) \<and>
         (\<exists>bs'. resolveAll bnd bs = Some bs' \<and> length bs' = length bs \<and>
                (position (bs' ! k) = position (wallPass bnd bs ! k) \<longrightarrow> withinWalls bnd (bs' ! k)))"
proof -
  let ?ws = "wallPass bnd bs"
  let ?bs' = "fold applyPair (indexPairs (length ?ws)) ?ws"
  have k: "k < length ?ws"
    using assms(1) by (simp add: wallPass_def)
  have w: "withinWalls bnd (?ws ! k)"
    using assms by (simp add: wallPass_def wallCollision_within)
  have run: "resolveAll bnd bs = Some ?bs'"
    by (simp add: resolveAll_def ballBallPass_fold)
  have len: "length ?bs' = length bs"
    by (simp add: length_fold_applyPair wallPass_def)
  have "radius (?bs' ! k) = radius (?ws ! k)"
    using k by (intro pass_radius) (simp add: ballBallPass_fold)
  then have "withinWalls bnd (?bs' ! k)" if "position (?bs' ! k) = position (?ws ! k)"
    using w that by (simp add: withinWalls_def)
  with w run len show ?thesis
    by blast
qed

text \<open>The left wall clamps the first body; the pairwise pass does not move it.\<close>

theorem wall_containment_witness:
  "withinWalls windowBounds (wallPass windowBounds [ballL, ballC] ! 0) \<and>
   wallPass windowBounds [ballL, ballC] ! 0 = \<lparr>position = vec 65 100, velocity = vec 8 2, radius = 15\<rparr> \<and>
   (\<exists>bs'. resolveAll windowBounds [ballL, ballC] = Some bs' \<and>
          position (bs' ! 0) = vec 65 100 \<and> withinWalls windowBounds (bs' ! 0))"
proof -
  let ?L = "\<lparr>position = vec 65 100, velocity = vec 8 2, radius = 15\<rparr>"
  have w: "wallPass windowBounds [ballL, ballC] = [?L, ballC]"
    by (simp add: wallPass_def wallCollision_def Let_def ball_ops ballL_def ballC_def windowBounds_def
        restitution_def vec_def)
  have far: "\<not> handled ?L ballC"
    by (simp add: handled_def centreDist_def minDist_def ballC_def vec_def hypot_less_iff)
  then have "pairStep ?L ballC = (?L, ballC)"
    by (simp add: pairStep_def)
  then have run: "resolveAll windowBounds [ballL, ballC] = Some [?L, ballC]"
    by (simp add: resolveAll_def w pass_two)
  have h: "(0::nat) < length [ballL, ballC]" "fits windowBounds ([ballL, ballC] ! 0)"
    "\<not> (crossedX windowBounds ([ballL, ballC] ! 0) \<and> crossedY windowBounds ([ballL, ballC] ! 0))"
    by (simp_all add: fits_def crossedX_def crossedY_def ballL_def windowBounds_def vec_def)
  from wall_containment [OF h] run
  have "withinWalls windowBounds (wallPass windowBounds [ballL, ballC] ! 0) \<and>
        (position ([?L, ballC] ! 0) = position (wallPass windowBounds [ballL, ballC] ! 0)
           \<longrightarrow> withinWalls windowBounds ([?L, ballC] ! 0))"
    by auto
  then show ?thesis
    by (simp add: run w)
qed

text \<open>
  The claim as stated fails: a body resting against the left wall is pushed through it
  by the pairwise pass, and \<open>resolveAll\<close> ends with its edge at 45, left of the wall
  at 50.
\<close>

theorem containment_counterexample:
  "resolveAll windowBounds [ballW, ballV] =
     Some [\<lparr>position = vec 60 100, velocity = vec 45 0, radius = 15\<rparr>,
           \<lparr>position = vec 90 100, velocity = vec 5 0, radius = 15\<rparr>] \<and>
   vec_x (vec 60 100) - 15 < left windowBounds"
proof -
  have "withinWalls windowBounds ballW" and "withinWalls windowBounds ballV"
    by (simp_all add: withinWalls_def windowBounds_def ballW_def ballV_def vec_def)
  then have "wallPass windowBounds [ballW, ballV] = [ballW, ballV]"
    by (intro wallPass_inside) simp
  then show ?thesis
    by (simp add: resolveAll_def pass_two pairStep_WV) (simp add: windowBounds_def vec_def)
qed

text \<open>
  C2. Body-body resolution policy. Two overlapping bodies that move towards each other,
  head on: the specification's gate \<open>vrel < 0\<close> holds and its resolution reverses the
  velocities with restitution 0.8 and pushes the centres 30 apart; the inner-loop body
  and the whole pairwise pass return the pair as it was.
\<close>

theorem approaching_pair_untouched:
  "0 < centreDist ballP ballQ \<and> centreDist ballP ballQ < minDist ballP ballQ \<and>
   approaching ballP ballQ \<and> specVrel ballP ballQ < 0 \<and>
   specResolve ballP ballQ =
     (\<lparr>position = vec 95 100, velocity = vec (- 40) 0, radius = 15\<rparr>,
      \<lparr>position = vec 125 100, velocity = vec 40 0, radius = 15\<rparr>) \<and>
   resolvePair ballP ballQ = Some (ballP, ballQ) \<and>
   ballBallPass [ballP, ballQ] = Some [ballP, ballQ]"
proof -
  have m: "minDist ballP ballQ = 30"
    by (simp add: minDist_def ballP_def ballQ_def)
  have a: "approaching ballP ballQ"
    by (simp add: approaching_def ballP_def ballQ_def vec_def)
  have s: "specResolve ballP ballQ =
     (\<lparr>position = vec 95 100, velocity = vec (- 40) 0, radius = 15\<rparr>,
      \<lparr>position = vec 125 100, velocity = vec 40 0, radius = 15\<rparr>)"
    by (simp add: specResolve_def specUpdate_def specImpulse_def centreDist_PQ m specVrel_PQ
        specNormal_def restitution_def)
       (simp add: ballP_def ballQ_def vec_ops)
  have c: "resolvePair ballP ballQ = Some (ballP, ballQ)"
    by (simp add: gate_inverted specVrel_PQ)
  then have "pairStep ballP ballQ = (ballP, ballQ)"
    by (simp add: resolvePair_step)
  then have "ballBallPass [ballP, ballQ] = Some [ballP, ballQ]"
    by (simp add: pass_two)
  with a s c show ?thesis
    by (simp add: centreDist_PQ m specVrel_PQ)
qed



text \<open>
  C4. Wall collision policy. A body that has crossed the left and the top boundary in
  the same frame: both velocity components are multiplied by \<open>-e\<close>, and the position
  ends at \<open>(60, 65)\<close>. The top clamp writes back the \<open>x\<close> read before the left clamp, so
  the left edge stays at 45, beyond the wall at 50.
\<close>

theorem wallCollision_corner:
  "wallCollision windowBounds ballK = \<lparr>position = vec 60 65, velocity = vec 8 8, radius = 15\<rparr> \<and>
   vec_x (position ballK) - radius ballK < left windowBounds \<and>
   vec_x (position (wallCollision windowBounds ballK)) - radius (wallCollision windowBounds ballK)
     < left windowBounds"
  by (simp add: wallCollision_def windowBounds_def ballK_def Let_def ball_ops restitution_def vec_def)

text \<open>
  C5. Drag/throw contract. \<open>startDrag\<close> at \<open>p\<close> grabs the body of lowest index under the
  pointer: its velocity becomes zero and the session records its index and \<open>p\<close>; with no
  body under the pointer the state is unchanged. \<open>endDrag\<close> at \<open>q\<close> with an open session
  sets the grabbed body's velocity to \<open>(q - dragStart) * 5\<close> and closes the session, so a
  grab at \<open>p\<close> followed by a release at \<open>q\<close> gives \<open>(q - p) * 5\<close>; with no session open
  \<open>endDrag\<close> changes nothing.
\<close>

theorem drag_throw_contract:
  "(k < length (balls s) \<and> underPointer p (balls s ! k) \<and>
      (\<forall>l. l < k \<longrightarrow> \<not> underPointer p (balls s ! l)) \<longrightarrow>
        startDrag p s = grab p k s \<and>
        velocity (balls (grab p k s) ! k) = vec 0 0 \<and>
        dragging (grab p k s) \<and> dragIndex (grab p k s) = int k \<and> dragStart (grab p k s) = p \<and>
        endDrag q (startDrag p s) = Some (throwBall q (grab p k s)) \<and>
        velocity (balls (throwBall q (grab p k s)) ! k) = vmul (vsub q p) 5) \<and>
   ((\<forall>l. l < length (balls s) \<longrightarrow> \<not> underPointer p (balls s ! l)) \<longrightarrow> startDrag p s = s) \<and>
   (dragging s \<and> dragValid s \<longrightarrow>
      endDrag q s = Some (throwBall q s) \<and> \<not> dragging (throwBall q s) \<and>
      velocity (balls (throwBall q s) ! nat (dragIndex s)) = vmul (vsub q (dragStart s)) 5) \<and>
   (\<not> dragging s \<longrightarrow> endDrag q s = Some s)"
proof -
  have hit: "startDrag p s = grab p k s"
    if "k < length (balls s)" "underPointer p (balls s ! k)" "\<forall>l. l < k \<longrightarrow> \<not> underPointer p (balls s ! l)"
    unfolding startDrag_def using that by (intro pressLoop_hit) auto
  have rel: "endDrag q (grab p k s) = Some (throwBall q (grab p k s))" if "k < length (balls s)"
    using that by (intro endDrag_valid dragValid_grab) (simp add: grab_def)
  have g: "velocity (balls (grab p k s) ! k) = vec 0 0 \<and> dragging (grab p k s) \<and>
      dragIndex (grab p k s) = int k \<and> dragStart (grab p k s) = p \<and>
      velocity (balls (throwBall q (grab p k s)) ! k) = vmul (vsub q p) 5" if "k < length (balls s)"
    using that by (simp add: grab_def throwBall_def)
  have miss: "startDrag p s = s" if "\<forall>l. l < length (balls s) \<longrightarrow> \<not> underPointer p (balls s ! l)"
    unfolding startDrag_def using that by (intro pressLoop_miss) auto
  have open_session: "endDrag q s = Some (throwBall q s) \<and> \<not> dragging (throwBall q s) \<and>
      velocity (balls (throwBall q s) ! nat (dragIndex s)) = vmul (vsub q (dragStart s)) 5"
    if "dragging s" "dragValid s"
    using that by (simp add: endDrag_valid) (simp add: throwBall_def dragValid_def)
  have closed_session: "endDrag q s = Some s" if "\<not> dragging s"
    using that by (simp add: endDrag_def)
  from hit rel g miss open_session closed_session show ?thesis
    by metis
qed

theorem drag_throw_contract_witness:
  "startDrag (vec 101 100) simThree = grab (vec 101 100) 1 simThree \<and>
   velocity (balls (grab (vec 101 100) 1 simThree) ! 1) = vec 0 0 \<and>
   endDrag (vec 111 90) (startDrag (vec 101 100) simThree)
     = Some (throwBall (vec 111 90) (grab (vec 101 100) 1 simThree)) \<and>
   velocity (balls (throwBall (vec 111 90) (grab (vec 101 100) 1 simThree)) ! 1) = vec 50 (- 50) \<and>
   startDrag (vec 200 100) simThree = simThree \<and>
   endDrag (vec 111 90) simThree = Some simThree"
proof -
  have a: "(1::nat) < length (balls simThree) \<and> underPointer (vec 101 100) (balls simThree ! 1) \<and>
      (\<forall>l. l < 1 \<longrightarrow> \<not> underPointer (vec 101 100) (balls simThree ! l))"
    by (simp add: simThree_def under_101)
  have b: "\<forall>l. l < length (balls simThree) \<longrightarrow> \<not> underPointer (vec 200 100) (balls simThree ! l)"
    by (auto simp add: simThree_def less_Suc_eq numeral_3_eq_3 underPointer_def ballA2_def ballB_def
        ballC_def vec_def hypot_x0)
  have c: "\<not> dragging simThree"
    by (simp add: simThree_def)
  have v: "vmul (vsub (vec 111 90) (vec 101 100)) 5 = vec 50 (- 50)"
    by (simp add: vec_ops)
  from a drag_throw_contract [of 1 simThree "vec 101 100" "vec 111 90"]
  have "startDrag (vec 101 100) simThree = grab (vec 101 100) 1 simThree \<and>
        velocity (balls (grab (vec 101 100) 1 simThree) ! 1) = vec 0 0 \<and>
        endDrag (vec 111 90) (startDrag (vec 101 100) simThree)
          = Some (throwBall (vec 111 90) (grab (vec 101 100) 1 simThree)) \<and>
        velocity (balls (throwBall (vec 111 90) (grab (vec 101 100) 1 simThree)) ! 1)
          = vmul (vsub (vec 111 90) (vec 101 100)) 5"
    by blast
  moreover from b c drag_throw_contract [of 0 simThree "vec 200 100" "vec 111 90"]
  have "startDrag (vec 200 100) simThree = simThree \<and> endDrag (vec 111 90) simThree = Some simThree"
    by blast
  ultimately show ?thesis
    unfolding v by blast
qed

text \<open>
  C6. Grabbed-state pinning, as the code has it. Over a frame with a session open, the
  grabbed body keeps its position and its zero velocity, and the session stays open,
  when the body lies within the walls and the pairwise pass handles no pair with the
  grabbed body in it.
\<close>

theorem grabbed_pinned:
  assumes "dragging s" and "dragValid s"
    and "velocity (balls s ! nat (dragIndex s)) = vec 0 0"
    and "withinWalls (bounds s) (balls s ! nat (dragIndex s))"
    and "untouched (moveWallPass dt (bounds s) (balls s)) (nat (dragIndex s))"
  shows "\<exists>s'. step dt s = Some s' \<and> balls s' ! nat (dragIndex s) = balls s ! nat (dragIndex s) \<and>
           dragging s' \<and> dragIndex s' = dragIndex s \<and> dragStart s' = dragStart s"
proof -
  let ?k = "nat (dragIndex s)"
  let ?ms = "moveWallPass dt (bounds s) (balls s)"
  from assms(1,2) have k: "?k < length (balls s)"
    by (simp add: dragValid_def)
  from pass_untouched [OF assms(5)] obtain bs' where
    bs': "ballBallPass ?ms = Some bs'" "bs' ! ?k = ?ms ! ?k"
    by blast
  then have "step dt s = Some (s\<lparr>balls := bs'\<rparr>)"
    by (simp add: step_def)
  moreover have "?ms ! ?k = balls s ! ?k"
    using k assms(3,4) by (simp add: moveWallPass_def moveAndWall_rest)
  ultimately show ?thesis
    using assms(1) bs'(2) by simp
qed

text \<open>The grabbed body rests while the pass resolves the pair of the two other bodies.\<close>

theorem grabbed_pinned_witness:
  "\<exists>s'. step (1 / 10) simBusy = Some s' \<and> balls s' ! 0 = ballA \<and> dragging s' \<and>
         balls s' ! 1 = \<lparr>position = vec 295 100, velocity = vec 45 0, radius = 15\<rparr>"
proof -
  let ?Y = "\<lparr>position = vec 320 100, velocity = vec 50 0, radius = 15\<rparr>"
  have a: "moveAndWall (1 / 10) windowBounds ballA = ballA"
    by (intro moveAndWall_rest) (simp_all add: ballA_def withinWalls_def windowBounds_def vec_def)
  have x: "moveAndWall (1 / 10) windowBounds ballX = ballX"
    by (intro moveAndWall_rest) (simp_all add: ballX_def withinWalls_def windowBounds_def vec_def)
  have y: "moveAndWall (1 / 10) windowBounds ballY = ?Y"
    by (simp add: moveAndWall_def wallCollision_def move_def Let_def ballY_def windowBounds_def vec_ops)
  have ms: "moveWallPass (1 / 10) (bounds simBusy) (balls simBusy) = [ballA, ballX, ?Y]"
    by (simp add: moveWallPass_def simBusy_def a x y)
  have far: "\<not> handled ballA ballX" "\<not> handled ballA ?Y"
    by (simp_all add: handled_def centreDist_def minDist_def ballA_def ballX_def vec_def hypot_x0)
  have t0: "passTrace [ballA, ballX, ?Y] 0 = [ballA, ballX, ?Y]"
    by (simp add: passTrace_def)
  have t1: "passTrace [ballA, ballX, ?Y] 1 = [ballA, ballX, ?Y]"
    unfolding passTrace_def indexPairs_len3 using far(1) by (simp add: applyPair_quiet)
  have u: "untouched (moveWallPass (1 / 10) (bounds simBusy) (balls simBusy)) (nat (dragIndex simBusy))"
    unfolding ms untouched_def indexPairs_len3
    using far t0 t1 by (auto simp add: simBusy_def less_Suc_eq numeral_3_eq_3)
  have h: "dragging simBusy" "dragValid simBusy"
    "velocity (balls simBusy ! nat (dragIndex simBusy)) = vec 0 0"
    "withinWalls (bounds simBusy) (balls simBusy ! nat (dragIndex simBusy))"
    by (simp_all add: simBusy_def dragValid_def ballA_def withinWalls_def windowBounds_def vec_def)
  have run: "ballBallPass [ballA, ballX, ?Y] =
      Some [ballA, \<lparr>position = vec 295 100, velocity = vec 45 0, radius = 15\<rparr>,
            \<lparr>position = vec 325 100, velocity = vec 5 0, radius = 15\<rparr>]"
    unfolding ballBallPass_fold indexPairs_len3
    using far by (simp add: applyPair_quiet) (simp add: applyPair_def pairStep_XY)
  from grabbed_pinned [OF h u] obtain s' where
    s': "step (1 / 10) simBusy = Some s'" "balls s' ! nat (dragIndex simBusy) = balls simBusy ! nat (dragIndex simBusy)"
      "dragging s'"
    by blast
  from s'(1) have "balls s' ! 1 = \<lparr>position = vec 295 100, velocity = vec 45 0, radius = 15\<rparr>"
    by (auto simp add: step_def ms run)
  with s' show ?thesis
    by (simp add: simBusy_def)
qed

text \<open>
  The claim as stated fails twice. The body grabbed at \<open>(100, 100)\<close> is hit by its
  neighbour in the next frame: with the session open it is at \<open>(95, 100)\<close> with velocity
  \<open>(45, 0)\<close>. The body grabbed at \<open>(60, 100)\<close>, its edge beyond the left wall, is moved
  to \<open>(65, 100)\<close> by the wall test of the next frame.
\<close>

theorem grabbed_moved_counterexample:
  "step (1 / 10) (startDrag (vec 100 100) simDrag) =
     Some \<lparr>bounds = windowBounds,
           balls = [\<lparr>position = vec 95 100, velocity = vec 45 0, radius = 15\<rparr>,
                    \<lparr>position = vec 125 100, velocity = vec 5 0, radius = 15\<rparr>],
           dragging = True, dragIndex = 0, dragStart = vec 100 100, isOpen = True\<rparr> \<and>
   balls (startDrag (vec 100 100) simDrag) ! 0
     = \<lparr>position = vec 100 100, velocity = vec 0 0, radius = 15\<rparr> \<and>
   step (1 / 10) (startDrag (vec 60 100) simOut) =
     Some \<lparr>bounds = windowBounds,
           balls = [\<lparr>position = vec 65 100, velocity = vec 0 0, radius = 15\<rparr>,
                    \<lparr>position = vec (3007 / 10) (997 / 10), velocity = vec 7 (- 3), radius = 15\<rparr>],
           dragging = True, dragIndex = 0, dragStart = vec 60 100, isOpen = True\<rparr> \<and>
   balls (startDrag (vec 60 100) simOut) ! 0
     = \<lparr>position = vec 60 100, velocity = vec 0 0, radius = 15\<rparr>"
proof -
  have g: "startDrag (vec 100 100) simDrag = grab (vec 100 100) 0 simDrag"
    unfolding startDrag_def
    by (intro pressLoop_hit) (simp_all add: simDrag_def underPointer_def ballA2_def vec_def hypot_x0)
  have s: "grab (vec 100 100) 0 simDrag =
      \<lparr>bounds = windowBounds, balls = [ballA, ballH], dragging = True, dragIndex = 0,
        dragStart = vec 100 100, isOpen = True\<rparr>"
    by (simp add: grab_def simDrag_def ballA_def ballA2_def)
  have a: "moveAndWall (1 / 10) windowBounds ballA = ballA"
    by (intro moveAndWall_rest) (simp_all add: ballA_def withinWalls_def windowBounds_def vec_def)
  have h: "move (vmul (velocity ballH) (1 / 10)) ballH = ballB"
    by (simp add: ballH_def ballB_def move_def vec_ops)
  have "withinWalls windowBounds ballB"
    by (simp add: ballB_def withinWalls_def windowBounds_def vec_def)
  then have b: "moveAndWall (1 / 10) windowBounds ballH = ballB"
    by (simp add: moveAndWall_def h wallCollision_inside)
  have first: "step (1 / 10) (startDrag (vec 100 100) simDrag) =
     Some \<lparr>bounds = windowBounds,
           balls = [\<lparr>position = vec 95 100, velocity = vec 45 0, radius = 15\<rparr>,
                    \<lparr>position = vec 125 100, velocity = vec 5 0, radius = 15\<rparr>],
           dragging = True, dragIndex = 0, dragStart = vec 100 100, isOpen = True\<rparr> \<and>
   balls (startDrag (vec 100 100) simDrag) ! 0
     = \<lparr>position = vec 100 100, velocity = vec 0 0, radius = 15\<rparr>"
    unfolding g s by (simp add: step_def moveWallPass_def a b pass_two pairStep_AB) (simp add: ballA_def)
  let ?O = "\<lparr>position = vec 60 100, velocity = vec 0 0, radius = 15\<rparr>"
  let ?O' = "\<lparr>position = vec 65 100, velocity = vec 0 0, radius = 15\<rparr>"
  let ?C' = "\<lparr>position = vec (3007 / 10) (997 / 10), velocity = vec 7 (- 3), radius = 15\<rparr>"
  have g2: "startDrag (vec 60 100) simOut = grab (vec 60 100) 0 simOut"
    unfolding startDrag_def
    by (intro pressLoop_hit) (simp_all add: simOut_def underPointer_def ballO_def vec_def hypot_x0)
  have s2: "grab (vec 60 100) 0 simOut =
      \<lparr>bounds = windowBounds, balls = [?O, ballC], dragging = True, dragIndex = 0,
        dragStart = vec 60 100, isOpen = True\<rparr>"
    by (simp add: grab_def simOut_def ballO_def)
  have o: "moveAndWall (1 / 10) windowBounds ?O = ?O'"
    by (simp add: moveAndWall_def wallCollision_def move_def Let_def ball_ops windowBounds_def vec_ops)
  have c: "moveAndWall (1 / 10) windowBounds ballC = ?C'"
    by (simp add: moveAndWall_def wallCollision_def move_def Let_def ballC_def windowBounds_def vec_ops)
  have far: "\<not> handled ?O' ?C'"
    by (simp add: handled_def centreDist_def minDist_def vec_def hypot_less_iff)
  then have "pairStep ?O' ?C' = (?O', ?C')"
    by (simp add: pairStep_def)
  then have second: "step (1 / 10) (startDrag (vec 60 100) simOut) =
     Some \<lparr>bounds = windowBounds, balls = [?O', ?C'],
           dragging = True, dragIndex = 0, dragStart = vec 60 100, isOpen = True\<rparr> \<and>
     balls (startDrag (vec 60 100) simOut) ! 0 = ?O"
    unfolding g2 s2 by (simp add: step_def moveWallPass_def o c pass_two)
  from first second show ?thesis
    by blast
qed

text \<open>
  C7. Idempotence of the no-collision state. If every pair of bodies has
  \<open>dist \<ge> minD\<close> and no body's edge has crossed a boundary, \<open>resolveAll\<close> returns the
  list of bodies as it was.
\<close>

theorem resolveAll_idempotent:
  assumes "\<forall>i j. i < j \<and> j < length bs \<longrightarrow> minDist (bs ! i) (bs ! j) \<le> centreDist (bs ! i) (bs ! j)"
    and "\<forall>b\<in>set bs. \<not> crossedX bnd b \<and> \<not> crossedY bnd b"
  shows "resolveAll bnd bs = Some bs"
proof -
  from assms(2) have "\<forall>b\<in>set bs. withinWalls bnd b"
    by (auto simp add: crossedX_def crossedY_def withinWalls_def)
  then have "wallPass bnd bs = bs"
    by (rule wallPass_inside)
  moreover have "ballBallPass bs = Some bs"
  proof (rule pass_quiet)
    fix i j assume "i < j" and "j < length bs"
    with assms(1) have "\<not> overlapping (bs ! i) (bs ! j)"
      by (simp add: overlapping_def not_less)
    then show "\<not> handled (bs ! i) (bs ! j)"
      by (rule not_overlapping_quiet)
  qed
  ultimately show ?thesis
    by (simp add: resolveAll_def)
qed

theorem resolveAll_idempotent_witness:
  "resolveAll windowBounds [ballA, ballC] = Some [ballA, ballC]"
proof -
  have d: "centreDist ballA ballC = 200"
    by (simp add: centreDist_def ballA_def ballC_def vec_def hypot_x0)
  have m: "minDist ballA ballC = 30"
    by (simp add: minDist_def ballA_def ballC_def)
  have "\<forall>i j. i < j \<and> j < length [ballA, ballC] \<longrightarrow>
          minDist ([ballA, ballC] ! i) ([ballA, ballC] ! j)
            \<le> centreDist ([ballA, ballC] ! i) ([ballA, ballC] ! j)"
    by (auto simp add: less_Suc_eq d m)
  moreover have "\<forall>b\<in>set [ballA, ballC]. \<not> crossedX windowBounds b \<and> \<not> crossedY windowBounds b"
    by (simp add: crossedX_def crossedY_def windowBounds_def ballA_def ballC_def vec_def)
  ultimately show ?thesis
    by (rule resolveAll_idempotent)
qed

text \<open>
  C8. Coincident-centre safety. For two bodies with the same centre the pair's
  resolution returns both bodies as they were; the resolution of any pair and the whole
  pairwise pass return a result, so no division by zero is reached.
\<close>

theorem coincident_noop:
  "(position A = position B \<longrightarrow> resolvePair A B = Some (A, B)) \<and>
   resolvePair A B \<noteq> None \<and> ballBallPass bs \<noteq> None"
proof -
  have "position A = position B \<Longrightarrow> \<not> handled A B"
    by (simp add: handled_def centreDist_def hypot_def)
  then show ?thesis
    by (auto simp add: resolvePair_step pairStep_def ballBallPass_fold)
qed

theorem coincident_noop_witness:
  "position ballA = position ballA2 \<and> resolvePair ballA ballA2 = Some (ballA, ballA2)"
  using coincident_noop [of ballA ballA2 "[]"] by (simp add: ballA_def ballA2_def)

text \<open>
  C9. Pairwise conservation, as the code has it. The two velocity updates and the two
  moves of a pair resolution are each rounded on their own. In arithmetic whose every
  operation has a relative error of at most \<open>u\<close> and rounds \<open>- x\<close> to the negative of what
  it rounds \<open>x\<close> to, every pair resolution returns, the sum \<open>velA + velB\<close> changes by at
  most \<open>2 * u * (|velA'| + |velB'|)\<close> and the midpoint \<open>(posA + posB) / 2\<close> by at most
  \<open>u * (|posA'| + |posB'|)\<close>, primes for the values after the resolution. For \<open>u = 0\<close>,
  exact arithmetic, both are unchanged.
\<close>

theorem pair_conservation:
  assumes "0 \<le> u" and "u \<le> 1 / 2"
    and "\<forall>x. \<bar>r x - x\<bar> \<le> u * \<bar>x\<bar>" and "\<forall>x. r (- x) = - r x"
  shows "\<exists>A' B'. resolvePairR r hyp A B = Some (A', B') \<and>
     vnorm (vsub (vadd (velocity A') (velocity B')) (vadd (velocity A) (velocity B)))
       \<le> 2 * u * (vnorm (velocity A') + vnorm (velocity B')) \<and>
     vnorm (vsub (midpoint A' B') (midpoint A B))
       \<le> u * (vnorm (position A') + vnorm (position B'))"
proof -
  have nn: "0 \<le> 2 * u * (vnorm v + vnorm w)" "0 \<le> u * (vnorm v + vnorm w)" for v w
    using assms(1) by (simp_all add: vnorm_cx)
  from resolvePairR_cases [of r hyp A B] show ?thesis
  proof
    assume "resolvePairR r hyp A B = Some (A, B)"
    moreover have "vnorm (vsub v v) = 0" for v
      by (simp add: vnorm_cx cx_ops)
    ultimately show ?thesis
      using nn by simp
  next
    assume "\<exists>P n h. resolvePairR r hyp A B =
      Some (A\<lparr>velocity := rvec r (vadd (velocity A) P),
              position := rvec r (vadd (position A) (rvec r (vmul (vneg n) h)))\<rparr>,
            B\<lparr>velocity := rvec r (vsub (velocity B) P),
              position := rvec r (vadd (position B) (rvec r (vmul n h)))\<rparr>)"
    then obtain P n h A' B' where
      run: "resolvePairR r hyp A B = Some (A', B')" and
      vA: "velocity A' = rvec r (vadd (velocity A) P)" and
      vB: "velocity B' = rvec r (vsub (velocity B) P)" and
      pA: "position A' = rvec r (vadd (position A) (rvec r (vmul (vneg n) h)))" and
      pB: "position B' = rvec r (vadd (position B) (rvec r (vmul n h)))"
      by force
    define f where "f = cx (rvec r (vmul n h))"
    have neg: "cx (rvec r (vmul (vneg n) h)) = - f"
      by (simp add: f_def rvec_odd [OF assms(4)] cx_ops)
    have rb: "cmod (cx (rvec r v) - cx v) \<le> 2 * u * cmod (cx (rvec r v))" for v
      using rvec_error [OF assms(3,1)] assms(1,2) by (rule round_back)
    have "cx (vsub (vadd (velocity A') (velocity B')) (vadd (velocity A) (velocity B)))
        = (cx (velocity A') - cx (vadd (velocity A) P)) + (cx (velocity B') - cx (vsub (velocity B) P))"
      by (simp add: cx_ops)
    also have "cmod \<dots> \<le> 2 * u * cmod (cx (velocity A')) + 2 * u * cmod (cx (velocity B'))"
      unfolding vA vB by (intro norm_triangle_mono rb)
    finally have vel: "vnorm (vsub (vadd (velocity A') (velocity B')) (vadd (velocity A) (velocity B)))
        \<le> 2 * u * (vnorm (velocity A') + vnorm (velocity B'))"
      by (simp add: vnorm_cx algebra_simps)
    have "cx (vsub (midpoint A' B') (midpoint A B))
        = ((cx (position A') - (cx (position A) - f)) + (cx (position B') - (cx (position B) + f)))
            * of_real (1 / 2)"
      by (simp add: midpoint_def cx_ops algebra_simps)
    also have "cmod \<dots> = cmod ((cx (position A') - (cx (position A) - f))
        + (cx (position B') - (cx (position B) + f))) * (1 / 2)"
      by (simp add: norm_mult)
    also have "\<dots> \<le> (2 * u * cmod (cx (position A')) + 2 * u * cmod (cx (position B'))) * (1 / 2)"
    proof (intro mult_right_mono norm_triangle_mono)
      show "cmod (cx (position A') - (cx (position A) - f)) \<le> 2 * u * cmod (cx (position A'))"
        using rb [of "vadd (position A) (rvec r (vmul (vneg n) h))"]
        by (simp add: pA cx_ops neg)
      show "cmod (cx (position B') - (cx (position B) + f)) \<le> 2 * u * cmod (cx (position B'))"
        using rb [of "vadd (position B) (rvec r (vmul n h))"]
        by (simp add: pB cx_ops f_def)
    qed simp
    finally have "vnorm (vsub (midpoint A' B') (midpoint A B))
        \<le> u * (vnorm (position A') + vnorm (position B'))"
      by (simp add: vnorm_cx algebra_simps)
    with run vel show ?thesis
      by blast
  qed
qed

text \<open>In binary32, for the pair of bodies of the counterexample below.\<close>

theorem pair_conservation_witness:
  "resolvePairR round32 hypot32 ballE ballF = Some (ballE2, ballF2) \<and>
   vnorm (vsub (vadd (velocity ballE2) (velocity ballF2)) (vadd (velocity ballE) (velocity ballF)))
     \<le> 2 * (1 / 2 ^ 24) * (vnorm (velocity ballE2) + vnorm (velocity ballF2)) \<and>
   vnorm (vsub (midpoint ballE2 ballF2) (midpoint ballE ballF))
     \<le> 1 / 2 ^ 24 * (vnorm (position ballE2) + vnorm (position ballF2))"
proof -
  have "\<forall>x. \<bar>round32 x - x\<bar> \<le> 1 / 2 ^ 24 * \<bar>x\<bar>"
    using round32_error by simp
  moreover have "\<forall>x. round32 (- x) = - round32 x"
    by (simp add: round32_odd)
  moreover have "(0::real) \<le> 1 / 2 ^ 24" and "(1::real) / 2 ^ 24 \<le> 1 / 2"
    by simp_all
  ultimately obtain A' B' where
    run: "resolvePairR round32 hypot32 ballE ballF = Some (A', B')" and
    vel: "vnorm (vsub (vadd (velocity A') (velocity B')) (vadd (velocity ballE) (velocity ballF)))
       \<le> 2 * (1 / 2 ^ 24) * (vnorm (velocity A') + vnorm (velocity B'))" and
    mid: "vnorm (vsub (midpoint A' B') (midpoint ballE ballF))
       \<le> 1 / 2 ^ 24 * (vnorm (position A') + vnorm (position B'))"
    using pair_conservation [of "1 / 2 ^ 24" round32 hypot32 ballE ballF] by blast
  from run have "A' = ballE2" and "B' = ballF2"
    by (simp_all add: resolvePairR_EF)
  with vel mid show ?thesis
    by (simp only: resolvePairR_EF)
qed

text \<open>
  The claim as stated fails in the program's arithmetic. The binary32 pair step takes the
  velocities \<open>(3, 0)\<close>, \<open>(10, 0)\<close>, of sum \<open>(13, 0)\<close>, to two velocities whose sum has
  \<open>x = 27262975 / 2097152\<close>, which is \<open>1 / 2097152\<close> less than 13, and moves the midpoint from
  \<open>x = 15073281 / 131072\<close> to \<open>x = 30146561 / 262144\<close>.
\<close>

theorem pair_conservation_counterexample:
  "resolvePairR round32 hypot32 ballE ballF = Some (ballE2, ballF2) \<and>
   vadd (velocity ballE) (velocity ballF) = vec 13 0 \<and>
   vadd (velocity ballE2) (velocity ballF2) = vec (27262975 / 2097152) 0 \<and>
   vadd (velocity ballE2) (velocity ballF2) \<noteq> vadd (velocity ballE) (velocity ballF) \<and>
   midpoint ballE ballF = vec (15073281 / 131072) 100 \<and>
   midpoint ballE2 ballF2 = vec (30146561 / 262144) 100 \<and>
   midpoint ballE2 ballF2 \<noteq> midpoint ballE ballF"
  by (simp add: resolvePairR_EF) (simp add: midpoint_def ballE_def ballF_def ballE2_def ballF2_def vec_ops)

text \<open>
  C10. Frame effect of \<open>startDrag\<close>. The container, the body count, every position and
  every radius are unchanged. Either nothing changed at all, or one body under the
  pointer was grabbed: its velocity is zero, the drag slot is set, and every other body
  is as before. With no body under the pointer nothing changes.
\<close>

theorem startDrag_frame:
  "bounds (startDrag p s) = bounds s \<and> isOpen (startDrag p s) = isOpen s \<and>
   length (balls (startDrag p s)) = length (balls s) \<and>
   map position (balls (startDrag p s)) = map position (balls s) \<and>
   map radius (balls (startDrag p s)) = map radius (balls s) \<and>
   (startDrag p s = s \<or>
    (\<exists>k. k < length (balls s) \<and> underPointer p (balls s ! k) \<and> startDrag p s = grab p k s \<and>
         velocity (balls (startDrag p s) ! k) = vec 0 0 \<and>
         (\<forall>l. l \<noteq> k \<longrightarrow> balls (startDrag p s) ! l = balls s ! l))) \<and>
   ((\<forall>l. l < length (balls s) \<longrightarrow> \<not> underPointer p (balls s ! l)) \<longrightarrow> startDrag p s = s)"
proof -
  have frame: "bounds (grab p k s) = bounds s \<and> isOpen (grab p k s) = isOpen s \<and>
      length (balls (grab p k s)) = length (balls s) \<and>
      map position (balls (grab p k s)) = map position (balls s) \<and>
      map radius (balls (grab p k s)) = map radius (balls s) \<and>
      (\<forall>l. l \<noteq> k \<longrightarrow> balls (grab p k s) ! l = balls s ! l)" for k
    by (simp add: grab_def map_update map_update_same)
  have zero: "velocity (balls (grab p k s) ! k) = vec 0 0" if "k < length (balls s)" for k
    using that by (simp add: grab_def)
  have miss: "startDrag p s = s" if "\<forall>l. l < length (balls s) \<longrightarrow> \<not> underPointer p (balls s ! l)"
    unfolding startDrag_def using that by (intro pressLoop_miss) auto
  from pressLoop_cases [of p 0 s] show ?thesis
  proof
    assume "pressLoop p 0 s = s"
    then show ?thesis
      using miss by (simp add: startDrag_def)
  next
    assume "\<exists>k. 0 \<le> k \<and> k < length (balls s) \<and> underPointer p (balls s ! k) \<and>
              pressLoop p 0 s = grab p k s"
    then obtain k where k: "k < length (balls s)" "underPointer p (balls s ! k)"
        and eq: "startDrag p s = grab p k s"
      by (auto simp add: startDrag_def)
    have "\<exists>k. k < length (balls s) \<and> underPointer p (balls s ! k) \<and> startDrag p s = grab p k s \<and>
         velocity (balls (startDrag p s) ! k) = vec 0 0 \<and>
         (\<forall>l. l \<noteq> k \<longrightarrow> balls (startDrag p s) ! l = balls s ! l)"
      using k eq frame [of k] zero [of k] by auto
    moreover have "startDrag p s = s" if "\<forall>l. l < length (balls s) \<longrightarrow> \<not> underPointer p (balls s ! l)"
      using that k by blast
    ultimately show ?thesis
      using frame [of k] unfolding eq by blast
  qed
qed

theorem startDrag_frame_witness:
  "position (balls (startDrag (vec 101 100) simThree) ! 1) = vec 100 100 \<and>
   velocity (balls (startDrag (vec 101 100) simThree) ! 1) = vec 0 0 \<and>
   balls (startDrag (vec 101 100) simThree) ! 0 = ballC \<and>
   balls (startDrag (vec 101 100) simThree) ! 2 = ballB \<and>
   bounds (startDrag (vec 101 100) simThree) = windowBounds \<and>
   startDrag (vec 200 100) simThree = simThree"
proof -
  have a: "startDrag (vec 101 100) simThree = grab (vec 101 100) 1 simThree"
    unfolding startDrag_def by (intro pressLoop_hit) (simp_all add: simThree_def under_101)
  have b: "\<forall>l. l < length (balls simThree) \<longrightarrow> \<not> underPointer (vec 200 100) (balls simThree ! l)"
    by (auto simp add: simThree_def less_Suc_eq numeral_3_eq_3 underPointer_def ballA2_def ballB_def
        ballC_def vec_def hypot_x0)
  from b startDrag_frame [of "vec 200 100" simThree] have "startDrag (vec 200 100) simThree = simThree"
    by blast
  then show ?thesis
    unfolding a by (simp add: grab_def simThree_def ballA2_def windowBounds_def)
qed

end
